theory Spec2Isabelle
  imports Main
begin

section \<open>JavaScript values\<close>

text \<open>
  An ObjectId is a 12-byte value; it is modelled by the number it encodes. The id that
  arrives in a route parameter is a string which may or may not be the text of an
  ObjectId: \<open>InvalidId\<close> stands for the strings that
  \<^verbatim>\<open>mongoose.Types.ObjectId.isValid\<close> rejects, \<open>ValidId i\<close> for the text of
  the ObjectId \<open>i\<close>.
\<close>

type_synonym object_id = nat

datatype id_param = InvalidId | ValidId object_id

text \<open>
  A JavaScript string is a sequence of UTF-16 code units. \<open>js\<close> gives the code units of
  an ASCII literal.
\<close>

type_synonym jsstring = "nat list"

definition js :: "string \<Rightarrow> jsstring" where
  "js s = map of_char s"

text \<open>
  The JavaScript numbers that occur as a capacity or as a number of spots: the doubles
  with an integer value, and the two infinities. \<open><\<close> is JavaScript's \<^verbatim>\<open><\<close> on
  them, and \<open>x \<le> y\<close> is \<^verbatim>\<open>y >= x\<close>; no NaN occurs.
\<close>

datatype jsnum = Num int | PosInf | NegInf

instantiation jsnum :: ord
begin

fun less_jsnum :: "jsnum \<Rightarrow> jsnum \<Rightarrow> bool" where
  "Num a < Num b \<longleftrightarrow> a < b"
| "Num a < PosInf \<longleftrightarrow> True"
| "Num a < NegInf \<longleftrightarrow> False"
| "PosInf < y \<longleftrightarrow> False"
| "NegInf < NegInf \<longleftrightarrow> False"
| "NegInf < Num b \<longleftrightarrow> True"
| "NegInf < PosInf \<longleftrightarrow> True"

definition less_eq_jsnum :: "jsnum \<Rightarrow> jsnum \<Rightarrow> bool" where
  "x \<le> y \<longleftrightarrow> \<not> y < (x :: jsnum)"

instance ..

end

text \<open>
  The double nearest to an integer. A double has 53 significant bits: an integer of more
  bits is rounded to the nearest multiple of the power of two that leaves 53, a tie
  going to the even one. The largest double is \<open>2^1024 - 2^971\<close>; from the midpoint
  \<open>2^1024 - 2^970\<close> on, the result is infinite. \<open>toDouble n\<close> is what
  \<^verbatim>\<open>parseInt\<close> returns for the decimal numeral of \<open>n\<close>, and the result of an
  addition or subtraction of doubles whose exact value is \<open>n\<close>.
\<close>

fun bitlen :: "nat \<Rightarrow> nat" where
  "bitlen n = (if n = 0 then 0 else Suc (bitlen (n div 2)))"

declare bitlen.simps [simp del]

definition roundNat :: "nat \<Rightarrow> nat" where
  "roundNat a =
     (if bitlen a \<le> 53 then a
      else (let sh = bitlen a - 53; q = a div 2 ^ sh; r = a mod 2 ^ sh
            in (if r > 2 ^ (sh - 1) \<or> (r = 2 ^ (sh - 1) \<and> odd q) then q + 1 else q) * 2 ^ sh))"

definition toDouble :: "int \<Rightarrow> jsnum" where
  "toDouble n =
     (if 2 ^ 1024 - 2 ^ 970 \<le> n then PosInf
      else if n \<le> - (2 ^ 1024 - 2 ^ 970) then NegInf
      else if 0 \<le> n then Num (int (roundNat (nat n)))
      else Num (- int (roundNat (nat (- n)))))"

text \<open>The \<^verbatim>\<open>length\<close> of an array, and \<^verbatim>\<open>c - xs.length\<close> in double arithmetic.\<close>

definition lengthOf :: "'a list \<Rightarrow> jsnum" where
  "lengthOf xs = Num (int (length xs))"

definition minusLength :: "jsnum \<Rightarrow> nat \<Rightarrow> jsnum" where
  "minusLength c n =
     (case c of Num a \<Rightarrow> toDouble (a - int n) | PosInf \<Rightarrow> PosInf | NegInf \<Rightarrow> NegInf)"

section \<open>Data model (server/models/Event.js)\<close>

text \<open>
  The schema of an event document. Dates are milliseconds since the epoch, as the
  comparison \<^verbatim>\<open>new Date(a) < new Date(b)\<close> reads them. \<open>capacity\<close> is a
  JavaScript number: every writer of the repository obtains it from \<^verbatim>\<open>parseInt\<close>.
\<close>

record event =
  title :: jsstring
  description :: jsstring
  date :: int
  time :: jsstring
  location :: jsstring
  capacity :: jsnum
  category :: jsstring
  image_url :: jsstring
  image_publicId :: jsstring
  creator :: object_id
  attendees :: "object_id list"
  isActive :: bool

text \<open>The collection of events, addressed by \<open>_id\<close>.\<close>

type_synonym store = "object_id \<rightharpoonup> event"

text \<open>The virtual \<^verbatim>\<open>spotsRemaining\<close> of the schema.\<close>

definition spotsRemaining :: "event \<Rightarrow> jsnum" where
  "spotsRemaining e = minusLength (capacity e) (length (attendees e))"

section \<open>The store's update primitives\<close>

text \<open>
  \<^verbatim>\<open>$addToSet\<close> appends a value to an array unless the array holds it already;
  \<^verbatim>\<open>$pull\<close> removes every occurrence of a value and keeps the rest in order.
\<close>

definition addToSet :: "'a list \<Rightarrow> 'a \<Rightarrow> 'a list" where
  "addToSet xs u = (if u \<in> set xs then xs else xs @ [u])"

definition pull :: "'a list \<Rightarrow> 'a \<Rightarrow> 'a list" where
  "pull xs u = filter (\<lambda>a. a \<noteq> u) xs"

text \<open>
  \<^verbatim>\<open>findOneAndUpdate({_id: eventId, ...filter}, update, {new: true})\<close>: one
  indivisible step of the store. It finds the document with the given id, and when the
  rest of the filter matches, it applies the update, stores the result and returns it
  (\<^verbatim>\<open>new: true\<close>); otherwise it returns \<^verbatim>\<open>null\<close> and the store is as it was.
\<close>

definition findOneAndUpdate ::
  "store \<Rightarrow> object_id \<Rightarrow> (event \<Rightarrow> bool) \<Rightarrow> (event \<Rightarrow> event) \<Rightarrow> event option \<times> store" where
  "findOneAndUpdate db eventId flt upd =
     (case db eventId of
        None \<Rightarrow> (None, db)
      | Some doc \<Rightarrow>
          if flt doc then (let doc' = upd doc in (Some doc', db(eventId \<mapsto> doc')))
          else (None, db))"

definition findById :: "store \<Rightarrow> object_id \<Rightarrow> event option" where
  "findById db eventId = db eventId"

text \<open>The two static methods of the model.\<close>

definition atomicRSVP :: "store \<Rightarrow> object_id \<Rightarrow> object_id \<Rightarrow> event option \<times> store" where
  "atomicRSVP db eventId userId =
     findOneAndUpdate db eventId
       (\<lambda>doc. userId \<notin> set (attendees doc) \<and> lengthOf (attendees doc) < capacity doc)
       (\<lambda>doc. doc\<lparr>attendees := addToSet (attendees doc) userId\<rparr>)"

definition atomicRemoveRSVP :: "store \<Rightarrow> object_id \<Rightarrow> object_id \<Rightarrow> event option \<times> store" where
  "atomicRemoveRSVP db eventId userId =
     findOneAndUpdate db eventId
       (\<lambda>doc. userId \<in> set (attendees doc))
       (\<lambda>doc. doc\<lparr>attendees := pull (attendees doc) userId\<rparr>)"

section \<open>The RSVP controller\<close>

text \<open>
  An error thrown by the database driver while the transaction runs: its
  \<^verbatim>\<open>name\<close>, \<^verbatim>\<open>code\<close> and \<^verbatim>\<open>message\<close>.
\<close>

datatype db_error = DbError (err_name: string) (err_code: int) (err_message: string)

text \<open>
  The responses of the controllers, one constructor for each \<^verbatim>\<open>res.status(..).json(..)\<close>
  of the source, with the values given to \<^verbatim>\<open>json\<close> (which writes an infinite number
  as \<^verbatim>\<open>null\<close>):
  \<^item> \<open>Joined event spots\<close>: 200, 'Successfully RSVPed to event!', with \<open>event\<close> and \<open>spotsRemaining\<close>;
  \<^item> \<open>Left event spots\<close>: 200, 'Successfully cancelled your RSVP', with \<open>event\<close> and \<open>spotsRemaining\<close>;
  \<^item> \<open>InvalidEventId\<close>: 400, 'Invalid event ID';
  \<^item> \<open>NotFound\<close>: 404, 'Event not found';
  \<^item> \<open>EventEnded\<close>: 400, 'Cannot RSVP to a past event';
  \<^item> \<open>CreatorImplicitlyAttending\<close>: 400, 'Event creators are automatically attending their events';
  \<^item> \<open>AlreadyJoined\<close>: 400, 'You have already RSVPed to this event';
  \<^item> \<open>AtCapacity spots\<close>: 400, 'Sorry, this event is at full capacity', with \<open>spotsRemaining\<close>;
  \<^item> \<open>TransientConflict\<close>: 400, 'Unable to RSVP. Please try again.';
  \<^item> \<open>NotJoined\<close>: 400, 'You are not RSVPed to this event';
  \<^item> \<open>WriteConflict\<close>: 409, 'Concurrent update detected. Please try again.';
  \<^item> \<open>ServerError msg\<close>: 500, with \<open>error.message\<close>;
  \<^item> \<open>Created event\<close>: 201, 'Event created successfully';
  \<^item> \<open>Updated event\<close>: 200, 'Event updated successfully', with what
    \<^verbatim>\<open>findByIdAndUpdate\<close> returned (\<open>None\<close> for \<^verbatim>\<open>null\<close>);
  \<^item> \<open>Deleted\<close>: 200, 'Event deleted successfully';
  \<^item> \<open>ValidationFailed\<close>: 400, with the first message of the request validation;
  \<^item> \<open>NotAuthorized\<close>: 403, 'Not authorized to update/delete this event';
  \<^item> \<open>CapacityBelowAttendees n\<close>: 400, 'Capacity cannot be less than current attendees (n)'.
\<close>

datatype response =
    Joined event jsnum
  | Left event jsnum
  | InvalidEventId
  | NotFound
  | EventEnded
  | CreatorImplicitlyAttending
  | AlreadyJoined
  | AtCapacity int
  | TransientConflict
  | NotJoined
  | WriteConflict
  | ServerError string
  | Created event
  | Updated "event option"
  | Deleted
  | ValidationFailed
  | NotAuthorized
  | CapacityBelowAttendees nat

fun status :: "response \<Rightarrow> nat" where
  "status (Joined _ _) = 200"
| "status (Left _ _) = 200"
| "status InvalidEventId = 400"
| "status NotFound = 404"
| "status EventEnded = 400"
| "status CreatorImplicitlyAttending = 400"
| "status AlreadyJoined = 400"
| "status (AtCapacity _) = 400"
| "status TransientConflict = 400"
| "status NotJoined = 400"
| "status WriteConflict = 409"
| "status (ServerError _) = 500"
| "status (Created _) = 201"
| "status (Updated _) = 200"
| "status Deleted = 200"
| "status ValidationFailed = 400"
| "status NotAuthorized = 403"
| "status (CapacityBelowAttendees _) = 400"

text \<open>
  The block of \<^verbatim>\<open>joinEvent\<close> that runs when the atomic update returned
  \<^verbatim>\<open>null\<close>: \<open>existingEvent\<close> is what \<^verbatim>\<open>Event.findById(eventId)\<close> read after the
  transaction was aborted, \<open>now\<close> is \<^verbatim>\<open>new Date()\<close>.
\<close>

definition joinFailure :: "int \<Rightarrow> event option \<Rightarrow> object_id \<Rightarrow> response" where
  "joinFailure now existing userId =
     (case existing of
        None \<Rightarrow> NotFound
      | Some existingEvent \<Rightarrow>
          if date existingEvent < now then EventEnded
          else if creator existingEvent = userId then CreatorImplicitlyAttending
          else if userId \<in> set (attendees existingEvent) then AlreadyJoined
          else if lengthOf (attendees existingEvent) \<ge> capacity existingEvent then AtCapacity 0
          else TransientConflict)"

text \<open>The \<^verbatim>\<open>catch\<close> block of \<^verbatim>\<open>joinEvent\<close>.\<close>

definition joinCatch :: "db_error \<Rightarrow> response" where
  "joinCatch err =
     (if err_name err = ''MongoError'' \<and> err_code err = 112 then WriteConflict
      else ServerError (err_message err))"

text \<open>
  \<^verbatim>\<open>joinEvent\<close>, as a function of the time of the request, of the error the driver
  throws inside the transaction (if any), of the store, of the route parameter and of the
  authenticated caller. It returns the response and the store after the request. A
  transaction that is aborted leaves the store as it was before the request.
\<close>

definition joinEvent ::
  "int \<Rightarrow> db_error option \<Rightarrow> store \<Rightarrow> id_param \<Rightarrow> object_id \<Rightarrow> response \<times> store" where
  "joinEvent now fault db param userId =
     (case param of
        InvalidId \<Rightarrow> (InvalidEventId, db)
      | ValidId eventId \<Rightarrow>
          (case fault of
             Some err \<Rightarrow> (joinCatch err, db)
           | None \<Rightarrow>
               (case findOneAndUpdate db eventId
                       (\<lambda>doc. userId \<notin> set (attendees doc)
                              \<and> lengthOf (attendees doc) < capacity doc)
                       (\<lambda>doc. doc\<lparr>attendees := addToSet (attendees doc) userId\<rparr>) of
                  (None, _) \<Rightarrow> (joinFailure now (findById db eventId) userId, db)
                | (Some ev, db') \<Rightarrow>
                    (Joined ev (minusLength (capacity ev) (length (attendees ev))), db'))))"

text \<open>The block of \<^verbatim>\<open>leaveEvent\<close> that runs when the atomic removal returned \<^verbatim>\<open>null\<close>.\<close>

definition leaveFailure :: "event option \<Rightarrow> response" where
  "leaveFailure existing = (case existing of None \<Rightarrow> NotFound | Some existingEvent \<Rightarrow> NotJoined)"

definition leaveEvent ::
  "db_error option \<Rightarrow> store \<Rightarrow> id_param \<Rightarrow> object_id \<Rightarrow> response \<times> store" where
  "leaveEvent fault db param userId =
     (case param of
        InvalidId \<Rightarrow> (InvalidEventId, db)
      | ValidId eventId \<Rightarrow>
          (case fault of
             Some err \<Rightarrow> (ServerError (err_message err), db)
           | None \<Rightarrow>
               (case findOneAndUpdate db eventId
                       (\<lambda>doc. userId \<in> set (attendees doc))
                       (\<lambda>doc. doc\<lparr>attendees := pull (attendees doc) userId\<rparr>) of
                  (None, _) \<Rightarrow> (leaveFailure (findById db eventId), db)
                | (Some ev, db') \<Rightarrow>
                    (Left ev (minusLength (capacity ev) (length (attendees ev))), db'))))"

text \<open>
  Two join requests to one event that run at the same time, without a driver error. The
  store applies their atomic updates one after the other, in one of the two orders
  (\<open>aFirst\<close> says which); a request whose update did not apply reads the event after
  its own update, so after the update of the other request. The result is the response
  to \<open>a\<close>, the response to \<open>b\<close> and the store.
\<close>

definition concurrentJoins ::
  "bool \<Rightarrow> int \<Rightarrow> int \<Rightarrow> store \<Rightarrow> object_id \<Rightarrow> object_id \<Rightarrow> object_id
     \<Rightarrow> response \<times> response \<times> store" where
  "concurrentJoins aFirst nowA nowB db eventId a b =
     (if aFirst then
        (let (ra, db1) = joinEvent nowA None db (ValidId eventId) a;
             (rb, db2) = joinEvent nowB None db1 (ValidId eventId) b
         in (ra, rb, db2))
      else
        (let (rb, db1) = joinEvent nowB None db (ValidId eventId) b;
             (ra, db2) = joinEvent nowA None db1 (ValidId eventId) a
         in (ra, rb, db2)))"

section \<open>The event controller\<close>

text \<open>
  The request body, after parsing. A field that is absent is \<open>None\<close>. The text sent
  for \<open>date\<close> is not an ISO 8601 date (\<open>NotISO8601\<close>), or it is one from which
  \<^verbatim>\<open>new Date\<close> makes no date (\<open>ISONoDate\<close>, a week date for instance), or it is one
  that \<^verbatim>\<open>new Date\<close> reads as the time \<open>t\<close> (\<open>ISODate t\<close>). The text sent for
  \<open>capacity\<close> either is the decimal numeral of an integer \<open>n\<close> (\<open>IntText n\<close>) or is
  not. \<open>b_image\<close> is the pair of \<^verbatim>\<open>image.url || image\<close> and
  \<^verbatim>\<open>image.publicId || ''\<close>; an uploaded file is the pair of its path and filename.
  The calls to the image host (\<^verbatim>\<open>deleteImage\<close>) are left out.
\<close>

datatype date_param = NotISO8601 | ISONoDate | ISODate int

datatype int_param = NotInt | IntText int

record body =
  b_title :: "jsstring option"
  b_description :: "jsstring option"
  b_date :: "date_param option"
  b_time :: "jsstring option"
  b_location :: "jsstring option"
  b_capacity :: "int_param option"
  b_category :: "jsstring option"
  b_image :: "(jsstring \<times> jsstring) option"

type_synonym upload = "(jsstring \<times> jsstring) option"

text \<open>
  The code units that JavaScript's \<^verbatim>\<open>\s\<close> and \<^verbatim>\<open>String.prototype.trim\<close> take
  for white space: tab, line feed, vertical tab, form feed, carriage return, space,
  U+00A0, U+1680, U+2000 to U+200A, U+2028, U+2029, U+202F, U+205F, U+3000 and U+FEFF.
  \<open>trim\<close> is the sanitizer of express-validator and the \<^verbatim>\<open>trim: true\<close> of the
  schema: both strip white space at the two ends.
\<close>

definition isWhitespace :: "nat \<Rightarrow> bool" where
  "isWhitespace c \<longleftrightarrow>
     c \<in> set [9, 10, 11, 12, 13, 32, 160, 5760, 8232, 8233, 8239, 8287, 12288, 65279]
     \<or> (8192 \<le> c \<and> c \<le> 8202)"

definition trim :: "jsstring \<Rightarrow> jsstring" where
  "trim s = rev (dropWhile isWhitespace (rev (dropWhile isWhitespace s)))"

text \<open>
  The validators of express-validator that the routes use. \<open>isInt_min m\<close> accepts the
  numeral of an integer whose number value is at least \<open>m\<close>; the routes use it with
  \<open>m = 1\<close>, where that is \<open>m \<le> n\<close>. How \<^verbatim>\<open>isLength({max})\<close> counts the characters of
  a string depends on the version of the library, so it is a parameter, \<open>isLength\<close>, of
  the two validation chains.
\<close>

fun isInt_min :: "int \<Rightarrow> int_param \<Rightarrow> bool" where
  "isInt_min m NotInt = False"
| "isInt_min m (IntText n) = (m \<le> n)"

fun isISO8601 :: "date_param \<Rightarrow> bool" where
  "isISO8601 NotISO8601 = False"
| "isISO8601 ISONoDate = True"
| "isISO8601 (ISODate t) = True"

text \<open>
  \<^verbatim>\<open>eventValidation\<close> (routes): every field is required. The result is
  \<^verbatim>\<open>errors.isEmpty()\<close>.
\<close>

definition eventValidation :: "(nat \<Rightarrow> jsstring \<Rightarrow> bool) \<Rightarrow> body \<Rightarrow> bool" where
  "eventValidation isLength b \<longleftrightarrow>
     (case b_title b of None \<Rightarrow> False | Some t \<Rightarrow> trim t \<noteq> [] \<and> isLength 100 (trim t)) \<and>
     (case b_description b of None \<Rightarrow> False
      | Some d \<Rightarrow> trim d \<noteq> [] \<and> isLength 2000 (trim d)) \<and>
     (case b_date b of None \<Rightarrow> False | Some d \<Rightarrow> isISO8601 d) \<and>
     (case b_time b of None \<Rightarrow> False | Some t \<Rightarrow> trim t \<noteq> []) \<and>
     (case b_location b of None \<Rightarrow> False | Some l \<Rightarrow> trim l \<noteq> []) \<and>
     (case b_capacity b of None \<Rightarrow> False | Some c \<Rightarrow> isInt_min 1 c)"

text \<open>\<^verbatim>\<open>eventUpdateValidation\<close> (routes): every rule is \<^verbatim>\<open>optional()\<close>.\<close>

definition eventUpdateValidation :: "(nat \<Rightarrow> jsstring \<Rightarrow> bool) \<Rightarrow> body \<Rightarrow> bool" where
  "eventUpdateValidation isLength b \<longleftrightarrow>
     (case b_title b of None \<Rightarrow> True | Some t \<Rightarrow> isLength 100 (trim t)) \<and>
     (case b_description b of None \<Rightarrow> True | Some d \<Rightarrow> isLength 2000 (trim d)) \<and>
     (case b_date b of None \<Rightarrow> True | Some d \<Rightarrow> isISO8601 d) \<and>
     (case b_capacity b of None \<Rightarrow> True | Some c \<Rightarrow> isInt_min 1 c)"

text \<open>The values the schema allows for \<open>category\<close>.\<close>

definition categories :: "jsstring list" where
  "categories = map js [''conference'', ''workshop'', ''social'', ''sports'', ''music'',
                        ''art'', ''food'', ''tech'', ''business'', ''other'']"

text \<open>
  The validators of the schema that can still fail on a new document whose fields passed
  \<open>eventValidation\<close>: \<^verbatim>\<open>maxlength\<close>, which counts code units, and the
  \<^verbatim>\<open>enum\<close> of the category.
\<close>

definition createValidators :: "event \<Rightarrow> bool" where
  "createValidators ev \<longleftrightarrow>
     length (title ev) \<le> 100 \<and> length (description ev) \<le> 2000
     \<and> category ev \<in> set categories"

text \<open>
  The \<^verbatim>\<open>pre('save')\<close> hook of the schema: it fails when the attendees exceed the
  capacity.
\<close>

definition preSave :: "event \<Rightarrow> bool" where
  "preSave e \<longleftrightarrow> \<not> lengthOf (attendees e) > capacity e"

text \<open>
  The \<^verbatim>\<open>eventData\<close> object of \<^verbatim>\<open>createEvent\<close>, with the defaults of the
  schema for the fields it leaves out, from the fields of a body that passed
  \<open>eventValidation\<close>: the title \<open>t\<close>, the description \<open>d\<close>, the time \<open>tm\<close> and the
  location \<open>l\<close>, which the validation has trimmed, \<open>dt\<close> which is
  \<^verbatim>\<open>new Date(date)\<close> and \<open>n\<close> which is \<^verbatim>\<open>parseInt(capacity)\<close>. An uploaded
  file overrides the image of the body.
\<close>

definition eventData ::
  "object_id \<Rightarrow> body \<Rightarrow> upload \<Rightarrow> jsstring \<Rightarrow> jsstring \<Rightarrow> int \<Rightarrow> jsstring \<Rightarrow> jsstring \<Rightarrow> jsnum
     \<Rightarrow> event" where
  "eventData userId b reqFile t d dt tm l n =
     (let img = (case reqFile of Some f \<Rightarrow> f
                 | None \<Rightarrow> (case b_image b of Some i \<Rightarrow> i | None \<Rightarrow> ([], [])))
      in \<lparr> title = trim t,
           description = trim d,
           date = dt,
           time = trim tm,
           location = trim l,
           capacity = n,
           category = (case b_category b of None \<Rightarrow> js ''other''
                       | Some c \<Rightarrow> if c = [] then js ''other'' else c),
           image_url = fst img,
           image_publicId = snd img,
           creator = userId,
           attendees = [],
           isActive = True \<rparr>)"

text \<open>
  \<^verbatim>\<open>createEvent\<close>. \<open>newId\<close> is the \<open>_id\<close> the driver generates for the new
  document. A body that passed \<open>eventValidation\<close> has all six required fields, with a
  date in ISO 8601 and a capacity that is a numeral. An error thrown by
  \<^verbatim>\<open>Event.create\<close> (a date that is none, a failing schema validator, the hook, a
  duplicate key) reaches the \<^verbatim>\<open>catch\<close> block. \<^verbatim>\<open>Event.create\<close> is one insert.
\<close>

definition createEvent ::
  "(nat \<Rightarrow> jsstring \<Rightarrow> bool) \<Rightarrow> store \<Rightarrow> object_id \<Rightarrow> object_id \<Rightarrow> body \<Rightarrow> upload
     \<Rightarrow> response \<times> store" where
  "createEvent isLength db newId userId b reqFile =
     (if \<not> eventValidation isLength b then (ValidationFailed, db)
      else
        (case (b_title b, b_description b, b_date b, b_time b, b_location b, b_capacity b) of
           (Some t, Some d, Some ISONoDate, Some tm, Some l, Some (IntText n)) \<Rightarrow>
             (ServerError ''ValidationError'', db)
         | (Some t, Some d, Some (ISODate dt), Some tm, Some l, Some (IntText n)) \<Rightarrow>
             (let ev = eventData userId b reqFile t d dt tm l (toDouble n)
              in if \<not> createValidators ev then (ServerError ''ValidationError'', db)
                 else if \<not> preSave ev then (ServerError ''Attendees cannot exceed capacity'', db)
                 else if db newId \<noteq> None then (ServerError ''duplicate key'', db)
                 else (Created ev, db(newId \<mapsto> ev)))
         | _ \<Rightarrow> (ValidationFailed, db)))"

text \<open>
  The \<^verbatim>\<open>updateData\<close> object of \<^verbatim>\<open>updateEvent\<close>, applied to a document,
  one function for each line that fills it: a field of the body that is truthy
  overwrites the field of the document. The title and the description were trimmed by
  the request validation, the location is trimmed by the schema, the capacity is
  \<^verbatim>\<open>parseInt(capacity)\<close>. An uploaded file overrides the image of the body.
\<close>

definition setTitle :: "body \<Rightarrow> event \<Rightarrow> event" where
  "setTitle b ev =
     (case b_title b of Some t \<Rightarrow> if trim t \<noteq> [] then ev\<lparr>title := trim t\<rparr> else ev
      | None \<Rightarrow> ev)"

definition setDescription :: "body \<Rightarrow> event \<Rightarrow> event" where
  "setDescription b ev =
     (case b_description b of
        Some d \<Rightarrow> if trim d \<noteq> [] then ev\<lparr>description := trim d\<rparr> else ev
      | None \<Rightarrow> ev)"

definition setDate :: "body \<Rightarrow> event \<Rightarrow> event" where
  "setDate b ev = (case b_date b of Some (ISODate t) \<Rightarrow> ev\<lparr>date := t\<rparr> | _ \<Rightarrow> ev)"

definition setTime :: "body \<Rightarrow> event \<Rightarrow> event" where
  "setTime b ev =
     (case b_time b of Some t \<Rightarrow> if t \<noteq> [] then ev\<lparr>time := t\<rparr> else ev | None \<Rightarrow> ev)"

definition setLocation :: "body \<Rightarrow> event \<Rightarrow> event" where
  "setLocation b ev =
     (case b_location b of Some l \<Rightarrow> if l \<noteq> [] then ev\<lparr>location := trim l\<rparr> else ev
      | None \<Rightarrow> ev)"

definition setCategory :: "body \<Rightarrow> event \<Rightarrow> event" where
  "setCategory b ev =
     (case b_category b of Some c \<Rightarrow> if c \<noteq> [] then ev\<lparr>category := c\<rparr> else ev
      | None \<Rightarrow> ev)"

definition setCapacity :: "body \<Rightarrow> event \<Rightarrow> event" where
  "setCapacity b ev =
     (case b_capacity b of
        Some (IntText n) \<Rightarrow> ev\<lparr>capacity := toDouble n\<rparr>
      | _ \<Rightarrow> ev)"

definition setImage :: "body \<Rightarrow> upload \<Rightarrow> event \<Rightarrow> event" where
  "setImage b reqFile ev =
     (case reqFile of
        Some f \<Rightarrow> ev\<lparr>image_url := fst f, image_publicId := snd f\<rparr>
      | None \<Rightarrow>
          (case b_image b of
             Some i \<Rightarrow> ev\<lparr>image_url := fst i, image_publicId := snd i\<rparr>
           | None \<Rightarrow> ev))"

definition applyUpdate :: "body \<Rightarrow> upload \<Rightarrow> event \<Rightarrow> event" where
  "applyUpdate b reqFile ev =
     setImage b reqFile (setCapacity b (setCategory b (setLocation b (setTime b
       (setDate b (setDescription b (setTitle b ev)))))))"

text \<open>
  What \<^verbatim>\<open>findByIdAndUpdate\<close> with \<^verbatim>\<open>runValidators: true\<close> checks on the fields
  of \<^verbatim>\<open>updateData\<close> before it writes, and that the request validation has not
  already established: a title and a description that are set have at most 100 and 2000
  code units, a date that is set is a date, a category that is set is in the enum, and
  a location that is set is not empty once trimmed.
\<close>

definition updateValidators :: "body \<Rightarrow> bool" where
  "updateValidators b \<longleftrightarrow>
     (case b_title b of Some t \<Rightarrow> length (trim t) \<le> 100 | None \<Rightarrow> True) \<and>
     (case b_description b of Some d \<Rightarrow> length (trim d) \<le> 2000 | None \<Rightarrow> True) \<and>
     b_date b \<noteq> Some ISONoDate \<and>
     (case b_category b of Some c \<Rightarrow> c = [] \<or> c \<in> set categories | None \<Rightarrow> True) \<and>
     (case b_location b of Some l \<Rightarrow> l = [] \<or> trim l \<noteq> [] | None \<Rightarrow> True)"

text \<open>
  \<^verbatim>\<open>updateEvent\<close> talks to the store twice, and other requests may be served in
  between. First it reads the document with \<^verbatim>\<open>Event.findById\<close> and decides on
  what it read: \<open>updateEventRead\<close> gives either the response that ends the request
  (\<open>Inl\<close>) or the write that the request goes on to make (\<open>Inr\<close>): the id, and the
  body and file from which \<^verbatim>\<open>updateData\<close> is built. A route parameter that is not
  an ObjectId makes \<^verbatim>\<open>findById\<close> throw. The capacity check compares
  \<^verbatim>\<open>parseInt(capacity)\<close> with the attendees of the document that was read; after
  the request validation, a capacity that is present is the numeral of an integer
  \<open>\<ge> 1\<close>, which is truthy.
\<close>

definition updateEventRead ::
  "(nat \<Rightarrow> jsstring \<Rightarrow> bool) \<Rightarrow> store \<Rightarrow> id_param \<Rightarrow> object_id \<Rightarrow> body \<Rightarrow> upload
     \<Rightarrow> response + (object_id \<times> body \<times> upload)" where
  "updateEventRead isLength db param userId b reqFile =
     (if \<not> eventUpdateValidation isLength b then Inl ValidationFailed
      else
        (case param of
           InvalidId \<Rightarrow> Inl (ServerError ''CastError'')
         | ValidId eventId \<Rightarrow>
             (case findById db eventId of
                None \<Rightarrow> Inl NotFound
              | Some ev \<Rightarrow>
                  if creator ev \<noteq> userId then Inl NotAuthorized
                  else if (case b_capacity b of
                             Some (IntText n) \<Rightarrow> toDouble n < lengthOf (attendees ev)
                           | _ \<Rightarrow> False)
                  then Inl (CapacityBelowAttendees (length (attendees ev)))
                  else Inr (eventId, b, reqFile))))"

text \<open>
  Then it writes with \<^verbatim>\<open>Event.findByIdAndUpdate(id, updateData)\<close>, which finds the
  document by its id alone, on the store as it is at that moment. A failing validator
  makes it throw before anything is written; when the document is no longer there it
  returns \<^verbatim>\<open>null\<close>, and the response is still the 200.
\<close>

definition updateEventWrite :: "store \<Rightarrow> object_id \<times> body \<times> upload \<Rightarrow> response \<times> store" where
  "updateEventWrite db w =
     (case w of (eventId, b, reqFile) \<Rightarrow>
        if \<not> updateValidators b then (ServerError ''ValidationError'', db)
        else
          (case db eventId of
             None \<Rightarrow> (Updated None, db)
           | Some doc \<Rightarrow>
               (let doc' = applyUpdate b reqFile doc
                in (Updated (Some doc'), db(eventId \<mapsto> doc')))))"

text \<open>An update request that no other request interleaves with.\<close>

definition updateEvent ::
  "(nat \<Rightarrow> jsstring \<Rightarrow> bool) \<Rightarrow> store \<Rightarrow> id_param \<Rightarrow> object_id \<Rightarrow> body \<Rightarrow> upload
     \<Rightarrow> response \<times> store" where
  "updateEvent isLength db param userId b reqFile =
     (case updateEventRead isLength db param userId b reqFile of
        Inl r \<Rightarrow> (r, db)
      | Inr w \<Rightarrow> updateEventWrite db w)"

text \<open>
  \<^verbatim>\<open>deleteEvent\<close> talks to the store twice as well: it reads the document and checks
  the owner, then removes the document by its id with \<^verbatim>\<open>findByIdAndDelete\<close>, and
  answers 200 whether or not the document was still there.
\<close>

definition deleteEventRead :: "store \<Rightarrow> id_param \<Rightarrow> object_id \<Rightarrow> response + object_id" where
  "deleteEventRead db param userId =
     (case param of
        InvalidId \<Rightarrow> Inl (ServerError ''CastError'')
      | ValidId eventId \<Rightarrow>
          (case findById db eventId of
             None \<Rightarrow> Inl NotFound
           | Some ev \<Rightarrow>
               if creator ev \<noteq> userId then Inl NotAuthorized
               else Inr eventId))"

definition deleteEventWrite :: "store \<Rightarrow> object_id \<Rightarrow> response \<times> store" where
  "deleteEventWrite db eventId = (Deleted, db(eventId := None))"

definition deleteEvent :: "store \<Rightarrow> id_param \<Rightarrow> object_id \<Rightarrow> response \<times> store" where
  "deleteEvent db param userId =
     (case deleteEventRead db param userId of
        Inl r \<Rightarrow> (r, db)
      | Inr eventId \<Rightarrow> deleteEventWrite db eventId)"

section \<open>The stores the program produces\<close>

text \<open>
  The requests are served concurrently. A join, a leave and a create change the store in
  one step. An update and a delete read first and write later: between the two, the
  request is pending with the write it has decided on, and any other step may happen.
  \<open>running db ps\<close> says that the program, started on the empty collection, can be in
  the store \<open>db\<close> with the writes \<open>ps\<close> pending.
\<close>

datatype pending = PendingUpdate "object_id \<times> body \<times> upload" | PendingDelete object_id

inductive running :: "store \<Rightarrow> pending list \<Rightarrow> bool" where
  r_start: "running Map.empty []"
| r_create: "running db ps \<Longrightarrow>
     running (snd (createEvent isLength db newId userId b reqFile)) ps"
| r_join: "running db ps \<Longrightarrow> running (snd (joinEvent now fault db param userId)) ps"
| r_leave: "running db ps \<Longrightarrow> running (snd (leaveEvent fault db param userId)) ps"
| r_update_read: "running db ps \<Longrightarrow>
     updateEventRead isLength db param userId b reqFile = Inr w \<Longrightarrow>
     running db (PendingUpdate w # ps)"
| r_update_write: "running db ps \<Longrightarrow> PendingUpdate w \<in> set ps \<Longrightarrow>
     running (snd (updateEventWrite db w)) (remove1 (PendingUpdate w) ps)"
| r_delete_read: "running db ps \<Longrightarrow> deleteEventRead db param userId = Inr eventId \<Longrightarrow>
     running db (PendingDelete eventId # ps)"
| r_delete_write: "running db ps \<Longrightarrow> PendingDelete eventId \<in> set ps \<Longrightarrow>
     running (snd (deleteEventWrite db eventId)) (remove1 (PendingDelete eventId) ps)"

definition reachable :: "store \<Rightarrow> bool" where
  "reachable db \<longleftrightarrow> (\<exists>ps. running db ps)"

text \<open>
  A list of join requests to one event, in order: each with its time, the error the
  driver throws (if any) and its caller.
\<close>

fun joinAll :: "store \<Rightarrow> object_id \<Rightarrow> (int \<times> db_error option \<times> object_id) list \<Rightarrow> store" where
  "joinAll db eventId [] = db"
| "joinAll db eventId ((now, fault, userId) # rest) =
     joinAll (snd (joinEvent now fault db (ValidId eventId) userId)) eventId rest"

section \<open>Invariants of the data model\<close>

text \<open>
  What holds of every document the program produces: the capacity is at least 1, no
  attendee is listed twice, and the document is active.
\<close>

definition wellFormed :: "event \<Rightarrow> bool" where
  "wellFormed e \<longleftrightarrow> Num 1 \<le> capacity e \<and> distinct (attendees e) \<and> isActive e"

definition storeOk :: "store \<Rightarrow> bool" where
  "storeOk db \<longleftrightarrow> (\<forall>eventId e. db eventId = Some e \<longrightarrow> wellFormed e)"

text \<open>A pending update carries a capacity that passed the request validation.\<close>

fun pendingOk :: "pending \<Rightarrow> bool" where
  "pendingOk (PendingUpdate (eventId, b, reqFile)) =
     (case b_capacity b of None \<Rightarrow> True | Some c \<Rightarrow> isInt_min 1 c)"
| "pendingOk (PendingDelete eventId) = True"

text \<open>No event has more attendees than its capacity.\<close>

definition withinCapacity :: "store \<Rightarrow> bool" where
  "withinCapacity db \<longleftrightarrow>
     (\<forall>eventId e. db eventId = Some e \<longrightarrow> lengthOf (attendees e) \<le> capacity e)"

text \<open>The condition of the atomic update of a join, on the document it finds.\<close>

definition joinable :: "event \<Rightarrow> object_id \<Rightarrow> bool" where
  "joinable e userId \<longleftrightarrow>
     userId \<notin> set (attendees e) \<and> lengthOf (attendees e) < capacity e"

section \<open>Sample data\<close>

text \<open>A validator that counts code units, for the examples.\<close>

definition codeUnits :: "nat \<Rightarrow> jsstring \<Rightarrow> bool" where
  "codeUnits m s \<longleftrightarrow> length s \<le> m"

definition meetup :: event where
  "meetup = \<lparr> title = js ''Meetup'', description = js ''Monthly meetup'', date = 2000,
              time = js ''18:00'', location = js ''Hall'', capacity = Num 1,
              category = js ''social'', image_url = [], image_publicId = [], creator = 1,
              attendees = [], isActive = True \<rparr>"

definition meetupBody :: body where
  "meetupBody = \<lparr> b_title = Some (js ''Meetup''), b_description = Some (js ''Monthly meetup''),
                  b_date = Some (ISODate 2000), b_time = Some (js ''18:00''),
                  b_location = Some (js ''Hall''), b_capacity = Some (IntText 1),
                  b_category = Some (js ''social''), b_image = None \<rparr>"

definition noChange :: body where
  "noChange = \<lparr> b_title = None, b_description = None, b_date = None, b_time = None,
                b_location = None, b_capacity = None, b_category = None, b_image = None \<rparr>"

definition workshop :: event where
  "workshop = \<lparr> title = js ''Workshop'', description = js ''Hands-on workshop'', date = 5000,
                time = js ''09:00'', location = js ''Lab'', capacity = Num 3,
                category = js ''workshop'', image_url = [], image_publicId = [], creator = 1,
                attendees = [], isActive = True \<rparr>"

definition workshopBody :: body where
  "workshopBody = \<lparr> b_title = Some (js ''Workshop''),
                    b_description = Some (js ''Hands-on workshop''),
                    b_date = Some (ISODate 5000), b_time = Some (js ''09:00''),
                    b_location = Some (js ''Lab''), b_capacity = Some (IntText 3),
                    b_category = Some (js ''workshop''), b_image = None \<rparr>"

text \<open>Two update bodies: a capacity of 1, and a capacity written with 401 digits.\<close>

definition shrink :: body where
  "shrink = noChange\<lparr>b_capacity := Some (IntText 1)\<rparr>"

definition huge :: body where
  "huge = noChange\<lparr>b_capacity := Some (IntText (10 ^ 400))\<rparr>"

section \<open>Basic facts\<close>

lemma le_jsnum_refl [simp]: "(x :: jsnum) \<le> x"
  by (cases x) (simp_all add: less_eq_jsnum_def)

lemma Num_le_Num [simp]: "Num a \<le> Num b \<longleftrightarrow> a \<le> b"
  by (auto simp add: less_eq_jsnum_def)

lemma lengthOf_less_Num [simp]: "lengthOf xs < Num c \<longleftrightarrow> int (length xs) < c"
  by (simp add: lengthOf_def)

lemma lengthOf_le_Num [simp]: "lengthOf xs \<le> Num c \<longleftrightarrow> int (length xs) \<le> c"
  by (simp add: lengthOf_def)

lemma Num_less_lengthOf [simp]: "Num c < lengthOf xs \<longleftrightarrow> c < int (length xs)"
  by (simp add: lengthOf_def)

lemma Num_le_lengthOf [simp]: "Num c \<le> lengthOf xs \<longleftrightarrow> c \<le> int (length xs)"
  by (simp add: lengthOf_def)

lemma bitlen_bound: "0 < n \<Longrightarrow> 2 ^ (bitlen n - 1) \<le> n"
proof (induction n rule: bitlen.induct)
  case (1 n)
  show ?case
  proof (cases "n div 2 = 0")
    case True
    with "1.prems" have "n = 1" by (cases n) auto
    then show ?thesis by (simp add: bitlen.simps)
  next
    case False
    with "1.IH" "1.prems" have ih: "2 ^ (bitlen (n div 2) - 1) \<le> n div 2" by simp
    from False have pos: "0 < bitlen (n div 2)" by (simp add: bitlen.simps [of "n div 2"])
    from "1.prems" have "bitlen n = Suc (bitlen (n div 2))" by (simp add: bitlen.simps [of n])
    then have "2 ^ (bitlen n - 1) = (2::nat) ^ (bitlen (n div 2))" by simp
    also from pos have "\<dots> = 2 * 2 ^ (bitlen (n div 2) - 1)"
      by (cases "bitlen (n div 2)") simp_all
    also from ih have "\<dots> \<le> 2 * (n div 2)" by simp
    also have "\<dots> \<le> n" by simp
    finally show ?thesis .
  qed
qed

lemma roundNat_pos: "0 < a \<Longrightarrow> 0 < roundNat a"
proof (cases "bitlen a \<le> 53")
  case True
  assume "0 < a"
  with True show ?thesis by (simp add: roundNat_def)
next
  case False
  assume pos: "0 < a"
  let ?sh = "bitlen a - 53"
  from False have "?sh \<le> bitlen a - 1" by simp
  then have "(2::nat) ^ ?sh \<le> 2 ^ (bitlen a - 1)" by (simp add: power_increasing)
  also from pos have "\<dots> \<le> a" by (rule bitlen_bound)
  finally have "0 < a div 2 ^ ?sh" by (simp add: div_greater_zero_iff)
  with False show ?thesis by (simp add: roundNat_def Let_def)
qed

lemma toDouble_ge_1: "1 \<le> n \<Longrightarrow> Num 1 \<le> toDouble n"
proof -
  assume n: "1 \<le> n"
  then have "0 < roundNat (nat n)" by (simp add: roundNat_pos)
  then have "1 \<le> int (roundNat (nat n))" by simp
  with n show ?thesis by (simp add: toDouble_def less_eq_jsnum_def)
qed

lemma toDouble_nonneg: "0 \<le> n \<Longrightarrow> Num 0 \<le> toDouble n"
  by (simp add: toDouble_def less_eq_jsnum_def)

lemma toDouble_small [simp]: "toDouble 0 = Num 0" "toDouble 1 = Num 1" "toDouble (- 1) = Num (- 1)"
  by (simp_all add: toDouble_def roundNat_def bitlen.simps)

lemma length_pull_le: "length (pull xs u) \<le> length xs"
  by (simp add: pull_def)

lemma distinct_pull: "distinct xs \<Longrightarrow> distinct (pull xs u)"
  by (simp add: pull_def)

lemma not_in_pull: "u \<notin> set (pull xs u)"
  by (simp add: pull_def)

lemma attendees_set [simp]:
  "attendees (setTitle b ev) = attendees ev"
  "attendees (setDescription b ev) = attendees ev"
  "attendees (setDate b ev) = attendees ev"
  "attendees (setTime b ev) = attendees ev"
  "attendees (setLocation b ev) = attendees ev"
  "attendees (setCategory b ev) = attendees ev"
  "attendees (setCapacity b ev) = attendees ev"
  "attendees (setImage b reqFile ev) = attendees ev"
  by (simp_all add: setTitle_def setDescription_def setDate_def setTime_def setLocation_def
      setCategory_def setCapacity_def setImage_def
      split: option.splits date_param.splits int_param.splits)

lemma isActive_set [simp]:
  "isActive (setTitle b ev) = isActive ev"
  "isActive (setDescription b ev) = isActive ev"
  "isActive (setDate b ev) = isActive ev"
  "isActive (setTime b ev) = isActive ev"
  "isActive (setLocation b ev) = isActive ev"
  "isActive (setCategory b ev) = isActive ev"
  "isActive (setCapacity b ev) = isActive ev"
  "isActive (setImage b reqFile ev) = isActive ev"
  by (simp_all add: setTitle_def setDescription_def setDate_def setTime_def setLocation_def
      setCategory_def setCapacity_def setImage_def
      split: option.splits date_param.splits int_param.splits)

lemma capacity_set [simp]:
  "capacity (setTitle b ev) = capacity ev"
  "capacity (setDescription b ev) = capacity ev"
  "capacity (setDate b ev) = capacity ev"
  "capacity (setTime b ev) = capacity ev"
  "capacity (setLocation b ev) = capacity ev"
  "capacity (setCategory b ev) = capacity ev"
  "capacity (setImage b reqFile ev) = capacity ev"
  by (simp_all add: setTitle_def setDescription_def setDate_def setTime_def setLocation_def
      setCategory_def setImage_def
      split: option.splits date_param.splits int_param.splits)

lemma attendees_applyUpdate: "attendees (applyUpdate b reqFile ev) = attendees ev"
  by (simp add: applyUpdate_def)

lemma isActive_applyUpdate: "isActive (applyUpdate b reqFile ev) = isActive ev"
  by (simp add: applyUpdate_def)

lemma capacity_applyUpdate:
  "capacity (applyUpdate b reqFile ev) =
     (case b_capacity b of Some (IntText n) \<Rightarrow> toDouble n | _ \<Rightarrow> capacity ev)"
  by (simp add: applyUpdate_def setCapacity_def split: option.splits int_param.splits)

text \<open>What each step does to the store.\<close>

lemma joinEvent_store:
  "snd (joinEvent now fault db param userId) = db \<or>
   (\<exists>eventId e. db eventId = Some e \<and> joinable e userId \<and>
      snd (joinEvent now fault db param userId)
        = db(eventId \<mapsto> e\<lparr>attendees := attendees e @ [userId]\<rparr>))"
  by (auto simp add: joinEvent_def findOneAndUpdate_def addToSet_def Let_def joinable_def
      split: id_param.splits option.splits)

lemma leaveEvent_store:
  "snd (leaveEvent fault db param userId) = db \<or>
   (\<exists>eventId e. db eventId = Some e \<and> userId \<in> set (attendees e) \<and>
      snd (leaveEvent fault db param userId)
        = db(eventId \<mapsto> e\<lparr>attendees := pull (attendees e) userId\<rparr>))"
  by (auto simp add: leaveEvent_def findOneAndUpdate_def Let_def
      split: id_param.splits option.splits)

lemma updateEventWrite_store:
  "snd (updateEventWrite db (eventId, b, reqFile)) = db \<or>
   (\<exists>e. db eventId = Some e \<and>
      snd (updateEventWrite db (eventId, b, reqFile)) = db(eventId \<mapsto> applyUpdate b reqFile e))"
  by (simp add: updateEventWrite_def Let_def split: option.splits)

lemma eventValidation_capacity:
  "eventValidation isLength b \<Longrightarrow> b_capacity b = Some (IntText n) \<Longrightarrow> 1 \<le> n"
  by (simp add: eventValidation_def)

lemma eventUpdateValidation_capacity:
  "eventUpdateValidation isLength b \<Longrightarrow> b_capacity b = Some (IntText n) \<Longrightarrow> 1 \<le> n"
  by (simp add: eventUpdateValidation_def)

lemma attendees_eventData: "attendees (eventData userId b reqFile t d dt tm l n) = []"
  by (simp add: eventData_def Let_def)

lemma capacity_eventData: "capacity (eventData userId b reqFile t d dt tm l n) = n"
  by (simp add: eventData_def Let_def)

lemma isActive_eventData: "isActive (eventData userId b reqFile t d dt tm l n)"
  by (simp add: eventData_def Let_def)

lemma createEvent_store:
  "snd (createEvent isLength db newId userId b reqFile) = db \<or>
   (\<exists>e. fst (createEvent isLength db newId userId b reqFile) = Created e \<and>
      attendees e = [] \<and> Num 1 \<le> capacity e \<and> isActive e \<and>
      snd (createEvent isLength db newId userId b reqFile) = db(newId \<mapsto> e))"
proof (cases "eventValidation isLength b")
  case False
  then show ?thesis by (simp add: createEvent_def)
next
  case True
  show ?thesis
  proof (cases "\<exists>t d dt tm l n. b_title b = Some t \<and> b_description b = Some d
      \<and> b_date b = Some (ISODate dt) \<and> b_time b = Some tm \<and> b_location b = Some l
      \<and> b_capacity b = Some (IntText n)")
    case False
    then have "snd (createEvent isLength db newId userId b reqFile) = db"
      by (auto simp add: createEvent_def split: option.splits date_param.splits int_param.splits)
    then show ?thesis ..
  next
    case yes: True
    then obtain t d dt tm l n where f: "b_title b = Some t" "b_description b = Some d"
      "b_date b = Some (ISODate dt)" "b_time b = Some tm" "b_location b = Some l"
      "b_capacity b = Some (IntText n)"
      by blast
    from True f(6) have "1 \<le> n" by (rule eventValidation_capacity)
    then have "Num 1 \<le> toDouble n" by (rule toDouble_ge_1)
    with True f show ?thesis
      by (simp add: createEvent_def Let_def attendees_eventData capacity_eventData
          isActive_eventData)
  qed
qed

lemma deleteEventWrite_store: "snd (deleteEventWrite db eventId) = db(eventId := None)"
  by (simp add: deleteEventWrite_def)

text \<open>The invariants, step by step.\<close>

lemma storeOk_upd: "storeOk db \<Longrightarrow> wellFormed e \<Longrightarrow> storeOk (db(eventId \<mapsto> e))"
  by (simp add: storeOk_def)

lemma storeOk_del: "storeOk db \<Longrightarrow> storeOk (db(eventId := None))"
  by (simp add: storeOk_def)

lemma storeOk_lookup: "storeOk db \<Longrightarrow> db eventId = Some e \<Longrightarrow> wellFormed e"
  by (auto simp add: storeOk_def)

lemma wellFormed_join:
  "wellFormed e \<Longrightarrow> joinable e userId \<Longrightarrow> wellFormed (e\<lparr>attendees := attendees e @ [userId]\<rparr>)"
  by (simp add: wellFormed_def joinable_def)

lemma wellFormed_pull:
  "wellFormed e \<Longrightarrow> wellFormed (e\<lparr>attendees := pull (attendees e) userId\<rparr>)"
  by (simp add: wellFormed_def distinct_pull)

lemma wellFormed_applyUpdate:
  assumes "wellFormed e" "case b_capacity b of None \<Rightarrow> True | Some c \<Rightarrow> isInt_min 1 c"
  shows "wellFormed (applyUpdate b reqFile e)"
proof -
  have "Num 1 \<le> capacity (applyUpdate b reqFile e)"
  proof (cases "b_capacity b")
    case None
    with assms(1) show ?thesis by (simp add: capacity_applyUpdate wellFormed_def)
  next
    case (Some c)
    show ?thesis
    proof (cases c)
      case NotInt
      with Some assms(1) show ?thesis by (simp add: capacity_applyUpdate wellFormed_def)
    next
      case (IntText n)
      with Some assms(2) have "1 \<le> n" by simp
      then have "Num 1 \<le> toDouble n" by (rule toDouble_ge_1)
      with Some IntText show ?thesis by (simp add: capacity_applyUpdate)
    qed
  qed
  with assms(1) show ?thesis
    by (simp add: wellFormed_def attendees_applyUpdate isActive_applyUpdate)
qed

lemma storeOk_joinEvent: "storeOk db \<Longrightarrow> storeOk (snd (joinEvent now fault db param userId))"
  using joinEvent_store [of now fault db param userId]
  by (auto intro!: storeOk_upd wellFormed_join dest: storeOk_lookup)

lemma storeOk_leaveEvent: "storeOk db \<Longrightarrow> storeOk (snd (leaveEvent fault db param userId))"
  using leaveEvent_store [of fault db param userId]
  by (auto intro!: storeOk_upd wellFormed_pull dest: storeOk_lookup)

lemma storeOk_createEvent:
  "storeOk db \<Longrightarrow> storeOk (snd (createEvent isLength db newId userId b reqFile))"
  using createEvent_store [of isLength db newId userId b reqFile]
  by (auto intro!: storeOk_upd simp add: wellFormed_def)

lemma storeOk_updateEventWrite:
  assumes "storeOk db" "pendingOk (PendingUpdate w)"
  shows "storeOk (snd (updateEventWrite db w))"
proof -
  obtain eventId b reqFile where w: "w = (eventId, b, reqFile)" by (cases w)
  from updateEventWrite_store [of db eventId b reqFile]
  consider "snd (updateEventWrite db w) = db"
    | e where "db eventId = Some e"
      "snd (updateEventWrite db w) = db(eventId \<mapsto> applyUpdate b reqFile e)"
    unfolding w by blast
  then show ?thesis
  proof cases
    case 1
    with assms(1) show ?thesis by simp
  next
    case 2
    from assms(1) 2(1) have "wellFormed e" by (rule storeOk_lookup)
    moreover from assms(2) w
    have "case b_capacity b of None \<Rightarrow> True | Some c \<Rightarrow> isInt_min 1 c" by simp
    ultimately have "wellFormed (applyUpdate b reqFile e)" by (rule wellFormed_applyUpdate)
    with assms(1) 2(2) show ?thesis by (simp add: storeOk_upd)
  qed
qed

lemma updateEventRead_pendingOk:
  "updateEventRead isLength db param userId b reqFile = Inr w \<Longrightarrow> pendingOk (PendingUpdate w)"
  by (auto simp add: updateEventRead_def eventUpdateValidation_def
      split: if_splits id_param.splits option.splits)

lemma running_invariant: "running db ps \<Longrightarrow> storeOk db \<and> (\<forall>p\<in>set ps. pendingOk p)"
proof (induction rule: running.induct)
  case r_start
  show ?case by (simp add: storeOk_def)
next
  case (r_create db ps isLength newId userId b reqFile)
  then show ?case by (simp add: storeOk_createEvent)
next
  case (r_join db ps now fault param userId)
  then show ?case by (simp add: storeOk_joinEvent)
next
  case (r_leave db ps fault param userId)
  then show ?case by (simp add: storeOk_leaveEvent)
next
  case (r_update_read db ps isLength param userId b reqFile w)
  then show ?case using updateEventRead_pendingOk by auto
next
  case (r_update_write db ps w)
  then have "storeOk (snd (updateEventWrite db w))"
    by (auto intro: storeOk_updateEventWrite)
  with r_update_write show ?case by (auto dest: notin_set_remove1)
next
  case (r_delete_read db ps param userId eventId)
  then show ?case by simp
next
  case (r_delete_write db ps eventId)
  then have "storeOk (db(eventId := None))" by (simp only: storeOk_del)
  then have "storeOk (snd (deleteEventWrite db eventId))" by (simp only: deleteEventWrite_store)
  with r_delete_write show ?case by (auto dest: notin_set_remove1)
qed

lemma reachable_storeOk: "reachable db \<Longrightarrow> storeOk db"
  by (auto simp add: reachable_def dest: running_invariant)

text \<open>No code writes \<open>isActive\<close>: every document the program produces is active.\<close>

lemma reachable_isActive: "reachable db \<Longrightarrow> db eventId = Some e \<Longrightarrow> isActive e"
  by (auto dest!: reachable_storeOk storeOk_lookup simp add: wellFormed_def)

text \<open>A join request with a valid id and no driver error, by cases of the atomic condition.\<close>

lemma joinEvent_applied:
  assumes "db eventId = Some e" "userId \<notin> set (attendees e)"
    "lengthOf (attendees e) < capacity e"
  shows "joinEvent now None db (ValidId eventId) userId =
     (Joined (e\<lparr>attendees := attendees e @ [userId]\<rparr>)
             (minusLength (capacity e) (Suc (length (attendees e)))),
      db(eventId \<mapsto> e\<lparr>attendees := attendees e @ [userId]\<rparr>))"
  using assms by (simp add: joinEvent_def findOneAndUpdate_def addToSet_def Let_def)

lemma joinEvent_refused:
  assumes "\<not> (\<exists>e. db eventId = Some e \<and> userId \<notin> set (attendees e)
                 \<and> lengthOf (attendees e) < capacity e)"
  shows "joinEvent now None db (ValidId eventId) userId =
     (joinFailure now (db eventId) userId, db)"
  using assms by (auto simp add: joinEvent_def findOneAndUpdate_def findById_def split: option.splits)

lemma joinFailure_not_Joined: "joinFailure now x userId \<noteq> Joined ev s"
  by (simp add: joinFailure_def split: option.splits)

lemma atomicRSVP_applied:
  assumes "db eventId = Some e" "userId \<notin> set (attendees e)"
    "lengthOf (attendees e) < capacity e"
  shows "atomicRSVP db eventId userId =
     (Some (e\<lparr>attendees := attendees e @ [userId]\<rparr>),
      db(eventId \<mapsto> e\<lparr>attendees := attendees e @ [userId]\<rparr>))"
  using assms by (simp add: atomicRSVP_def findOneAndUpdate_def addToSet_def Let_def)

lemma atomicRSVP_refused:
  assumes "\<not> (\<exists>e. db eventId = Some e \<and> userId \<notin> set (attendees e)
                 \<and> lengthOf (attendees e) < capacity e)"
  shows "atomicRSVP db eventId userId = (None, db)"
  using assms by (auto simp add: atomicRSVP_def findOneAndUpdate_def split: option.splits)

section \<open>Join: the atomic condition\<close>

text \<open>
  Claim C1. A join request (valid id, no driver error) adds the caller to the attendees
  if and only if the event exists, the caller is not yet an attendee and the number of
  attendees is strictly below the capacity. When it does, the response carries the
  updated document: the document found, with the caller appended to its attendees,
  which is also what the store holds for the event afterwards and what the model's
  static method \<open>atomicRSVP\<close> returns. When it does not, the store is unchanged.
  Check and update are one step of the store (\<open>findOneAndUpdate\<close>).
\<close>

theorem join_iff_precondition:
  assumes "joinEvent now None db (ValidId eventId) userId = (r, db')"
  shows "((\<exists>ev s. r = Joined ev s) \<longleftrightarrow>
            (\<exists>e. db eventId = Some e \<and> userId \<notin> set (attendees e)
                 \<and> lengthOf (attendees e) < capacity e))
       \<and> (\<forall>ev s. r = Joined ev s \<longrightarrow>
            (\<exists>e. db eventId = Some e \<and> ev = e\<lparr>attendees := attendees e @ [userId]\<rparr>)
            \<and> db' = db(eventId \<mapsto> ev) \<and> atomicRSVP db eventId userId = (Some ev, db'))
       \<and> ((\<nexists>ev s. r = Joined ev s) \<longrightarrow> db' = db \<and> atomicRSVP db eventId userId = (None, db))"
proof (cases "\<exists>e. db eventId = Some e \<and> userId \<notin> set (attendees e)
                 \<and> lengthOf (attendees e) < capacity e")
  case True
  then obtain e where e: "db eventId = Some e" "userId \<notin> set (attendees e)"
    "lengthOf (attendees e) < capacity e" by blast
  from joinEvent_applied [of db eventId e userId now] assms atomicRSVP_applied [of db eventId e userId] e
  show ?thesis by auto
next
  case False
  from joinEvent_refused [of db eventId userId now] assms atomicRSVP_refused [of db eventId userId] False
  show ?thesis by (auto simp: joinFailure_not_Joined)
qed

theorem join_iff_precondition_witness:
  "joinEvent 1000 None [10 \<mapsto> meetup] (ValidId 10) 2
     = (Joined (meetup\<lparr>attendees := [2]\<rparr>) (Num 0), [10 \<mapsto> meetup\<lparr>attendees := [2]\<rparr>])
   \<and> atomicRSVP [10 \<mapsto> meetup] 10 2
     = (Some (meetup\<lparr>attendees := [2]\<rparr>), [10 \<mapsto> meetup\<lparr>attendees := [2]\<rparr>])"
proof -
  have run: "joinEvent 1000 None [10 \<mapsto> meetup] (ValidId 10) 2
     = (Joined (meetup\<lparr>attendees := [2]\<rparr>) (Num 0), [10 \<mapsto> meetup\<lparr>attendees := [2]\<rparr>])"
    by (simp add: joinEvent_def findOneAndUpdate_def addToSet_def meetup_def Let_def
        minusLength_def)
  have "atomicRSVP [10 \<mapsto> meetup] 10 2
     = (Some (meetup\<lparr>attendees := [2]\<rparr>), [10 \<mapsto> meetup\<lparr>attendees := [2]\<rparr>])"
    by (rule join_iff_precondition [OF run, THEN conjunct2, THEN conjunct1, rule_format,
          OF refl, THEN conjunct2, THEN conjunct2])
  with run show ?thesis by (rule conjI)
qed

lemma count_list_append1:
  "count_list (xs @ [v]) u = count_list xs u + (if v = u then 1 else 0)"
  by (induction xs) simp_all

lemma joinEvent_count:
  assumes "db eventId = Some e" "count_list (attendees e) u \<le> 1"
  shows "\<exists>e1. snd (joinEvent now fault db param userId) eventId = Some e1
            \<and> count_list (attendees e1) u \<le> 1"
proof -
  from joinEvent_store [of now fault db param userId]
  consider "snd (joinEvent now fault db param userId) = db"
    | k d where "db k = Some d" "joinable d userId"
      "snd (joinEvent now fault db param userId)
        = db(k \<mapsto> d\<lparr>attendees := attendees d @ [userId]\<rparr>)"
    by blast
  then show ?thesis
  proof cases
    case 1
    with assms show ?thesis by simp
  next
    case 2
    show ?thesis
    proof (cases "k = eventId")
      case False
      with 2(3) assms show ?thesis by simp
    next
      case True
      with 2(1) assms(1) have d: "d = e" by simp
      from 2(2) d have "userId \<notin> set (attendees e)" by (simp add: joinable_def)
      then have "count_list (attendees e) userId = 0" by (simp add: count_list_0_iff)
      with assms(2) have "count_list (attendees e @ [userId]) u \<le> 1"
        by (auto simp add: count_list_append1)
      with 2(3) True d show ?thesis by simp
    qed
  qed
qed

lemma joinAll_count:
  "db eventId = Some e \<Longrightarrow> count_list (attendees e) u \<le> 1 \<Longrightarrow>
   \<exists>e'. joinAll db eventId reqs eventId = Some e' \<and> count_list (attendees e') u \<le> 1"
proof (induction db eventId reqs arbitrary: e rule: joinAll.induct)
  case (1 db eventId)
  then show ?case by simp
next
  case (2 db eventId now fault userId rest)
  from joinEvent_count [of db eventId e u now fault "ValidId eventId" userId] "2.prems"
  obtain e1 where "snd (joinEvent now fault db (ValidId eventId) userId) eventId = Some e1"
    "count_list (attendees e1) u \<le> 1" by blast
  then show ?case using "2.IH" by simp
qed

lemma joinEvent_Joined:
  assumes "joinEvent now fault db param userId = (Joined ev s, db')"
  shows "\<exists>eventId e. param = ValidId eventId \<and> fault = None \<and> db eventId = Some e
           \<and> joinable e userId \<and> ev = e\<lparr>attendees := attendees e @ [userId]\<rparr>
           \<and> s = minusLength (capacity ev) (length (attendees ev)) \<and> db' = db(eventId \<mapsto> ev)"
proof -
  from assms obtain eventId where p: "param = ValidId eventId" and f: "fault = None"
    by (cases param; cases fault)
       (auto simp add: joinEvent_def joinCatch_def split: if_splits)
  show ?thesis
  proof (cases "\<exists>e. db eventId = Some e \<and> userId \<notin> set (attendees e)
                 \<and> lengthOf (attendees e) < capacity e")
    case True
    then obtain e where e: "db eventId = Some e" "userId \<notin> set (attendees e)"
      "lengthOf (attendees e) < capacity e" by blast
    from joinEvent_applied [of db eventId e userId now] e assms p f
    show ?thesis by (auto simp add: joinable_def)
  next
    case False
    from joinEvent_refused [of db eventId userId now] False assms p f
    show ?thesis by (simp add: joinFailure_not_Joined)
  qed
qed

lemma distinct_count_list: "distinct xs \<Longrightarrow> count_list xs u \<le> 1"
  by (induction xs) (auto simp add: count_list_0_iff)

section \<open>No duplicate membership\<close>

text \<open>
  Claim C4. A caller who is listed at most once among the attendees of an event is
  still listed at most once after any list of join requests to that event (by this
  caller or by others, with or without driver errors); in every store the program
  produces, every caller is listed at most once. When a join succeeded, the next join
  of the same caller to the same event finds the caller among the attendees, so the
  atomic condition fails: the store is unchanged, the response is not a success, and
  without a driver error it is one of the three refusals that the failure block can
  give for an attendee ('past event', 'creator', 'already RSVPed'), none of which is a
  server error.
\<close>

theorem no_duplicate_membership:
  "(\<forall>e. db eventId = Some e \<and> count_list (attendees e) userId \<le> 1 \<longrightarrow>
      (\<exists>e'. joinAll db eventId reqs eventId = Some e' \<and> count_list (attendees e') userId \<le> 1))
   \<and> (\<forall>e. reachable db \<and> db eventId = Some e \<longrightarrow> count_list (attendees e) userId \<le> 1)
   \<and> (\<forall>ev s db1 r2 db2.
        joinEvent now fault db param userId = (Joined ev s, db1)
        \<and> joinEvent now' fault' db1 param userId = (r2, db2) \<longrightarrow>
          db2 = db1 \<and> (\<nexists>ev' s'. r2 = Joined ev' s')
          \<and> (\<exists>k. param = ValidId k \<and> db1 k = Some ev \<and> count_list (attendees ev) userId = 1)
          \<and> (fault' = None \<longrightarrow>
                 r2 = EventEnded \<or> r2 = CreatorImplicitlyAttending \<or> r2 = AlreadyJoined))"
proof (intro conjI allI impI)
  fix e assume "db eventId = Some e \<and> count_list (attendees e) userId \<le> 1"
  then show "\<exists>e'. joinAll db eventId reqs eventId = Some e' \<and> count_list (attendees e') userId \<le> 1"
    using joinAll_count [of db eventId e userId reqs] by blast
next
  fix e assume "reachable db \<and> db eventId = Some e"
  then have "wellFormed e" using reachable_storeOk storeOk_lookup by blast
  then have "distinct (attendees e)" by (simp add: wellFormed_def)
  then show "count_list (attendees e) userId \<le> 1" by (rule distinct_count_list)
next
  fix ev s db1 r2 db2
  assume a: "joinEvent now fault db param userId = (Joined ev s, db1)
        \<and> joinEvent now' fault' db1 param userId = (r2, db2)"
  from a joinEvent_Joined [of now fault db param userId ev s db1]
  obtain k e where k: "param = ValidId k" "db k = Some e" "joinable e userId"
    "ev = e\<lparr>attendees := attendees e @ [userId]\<rparr>" "db1 = db(k \<mapsto> ev)" by blast
  from k have member: "userId \<in> set (attendees ev)" and stored: "db1 k = Some ev" by simp_all
  from k(3) have "count_list (attendees e) userId = 0"
    by (simp add: joinable_def count_list_0_iff)
  with k(4) have one: "count_list (attendees ev) userId = 1" by (simp add: count_list_append1)
  have second: "db2 = db1 \<and> (\<nexists>ev' s'. r2 = Joined ev' s')
      \<and> (fault' = None \<longrightarrow>
                 r2 = EventEnded \<or> r2 = CreatorImplicitlyAttending \<or> r2 = AlreadyJoined)"
  proof (cases fault')
    case (Some err)
    with a k(1) show ?thesis
      by (auto simp add: joinEvent_def joinCatch_def split: if_splits)
  next
    case None
    from member stored
    have "\<not> (\<exists>e. db1 k = Some e \<and> userId \<notin> set (attendees e)
                 \<and> lengthOf (attendees e) < capacity e)" by simp
    from joinEvent_refused [of db1 k userId now', OF this] a k(1) None
    have "r2 = joinFailure now' (db1 k) userId" "db2 = db1" by auto
    with stored member None show ?thesis
      by (simp add: joinFailure_def)
  qed
  from second show "db2 = db1" by blast
  from second show "\<nexists>ev' s'. r2 = Joined ev' s'" by blast
  from k(1) stored one
  show "\<exists>k. param = ValidId k \<and> db1 k = Some ev \<and> count_list (attendees ev) userId = 1"
    by blast
  assume "fault' = None"
  with second show "r2 = EventEnded \<or> r2 = CreatorImplicitlyAttending \<or> r2 = AlreadyJoined"
    by blast
qed

theorem no_duplicate_membership_witness:
  "joinEvent 1000 None [10 \<mapsto> meetup] (ValidId 10) 2
     = (Joined (meetup\<lparr>attendees := [2]\<rparr>) (Num 0), [10 \<mapsto> meetup\<lparr>attendees := [2]\<rparr>])
   \<and> joinEvent 1001 None [10 \<mapsto> meetup\<lparr>attendees := [2]\<rparr>] (ValidId 10) 2
     = (AlreadyJoined, [10 \<mapsto> meetup\<lparr>attendees := [2]\<rparr>])
   \<and> count_list (attendees (meetup\<lparr>attendees := [2]\<rparr>)) 2 = 1"
proof -
  have first: "joinEvent 1000 None [10 \<mapsto> meetup] (ValidId 10) 2
     = (Joined (meetup\<lparr>attendees := [2]\<rparr>) (Num 0), [10 \<mapsto> meetup\<lparr>attendees := [2]\<rparr>])"
    by (simp add: joinEvent_def findOneAndUpdate_def addToSet_def meetup_def Let_def
        minusLength_def)
  have second: "joinEvent 1001 None [10 \<mapsto> meetup\<lparr>attendees := [2]\<rparr>] (ValidId 10) 2
     = (AlreadyJoined, [10 \<mapsto> meetup\<lparr>attendees := [2]\<rparr>])"
    by (simp add: joinEvent_def findOneAndUpdate_def findById_def joinFailure_def meetup_def)
  from no_duplicate_membership [THEN conjunct2, THEN conjunct2, rule_format,
      OF conjI, OF first second]
  have "\<exists>k. ValidId 10 = ValidId k \<and> [10 \<mapsto> meetup\<lparr>attendees := [2]\<rparr>] k
            = Some (meetup\<lparr>attendees := [2]\<rparr>)
          \<and> count_list (attendees (meetup\<lparr>attendees := [2]\<rparr>)) 2 = 1"
    by (rule conjunct1 [OF conjunct2 [OF conjunct2]])
  then have "count_list (attendees (meetup\<lparr>attendees := [2]\<rparr>)) 2 = 1" by blast
  with first second show ?thesis by blast
qed

text \<open>A leave request with a valid id and no driver error, by cases of the atomic condition.\<close>

lemma leaveEvent_applied:
  assumes "db eventId = Some e" "userId \<in> set (attendees e)"
  shows "leaveEvent None db (ValidId eventId) userId =
     (Left (e\<lparr>attendees := pull (attendees e) userId\<rparr>)
           (minusLength (capacity e) (length (pull (attendees e) userId))),
      db(eventId \<mapsto> e\<lparr>attendees := pull (attendees e) userId\<rparr>))"
  using assms by (simp add: leaveEvent_def findOneAndUpdate_def Let_def)

lemma leaveEvent_refused:
  assumes "\<not> (\<exists>e. db eventId = Some e \<and> userId \<in> set (attendees e))"
  shows "leaveEvent None db (ValidId eventId) userId = (leaveFailure (db eventId), db)"
  using assms
  by (auto simp add: leaveEvent_def findOneAndUpdate_def findById_def split: option.splits)

lemma leaveFailure_not_Left: "leaveFailure x \<noteq> Left ev s"
  by (simp add: leaveFailure_def split: option.splits)

lemma leaveEvent_Left:
  assumes "leaveEvent fault db param userId = (Left ev s, db')"
  shows "\<exists>eventId e. param = ValidId eventId \<and> fault = None \<and> db eventId = Some e
           \<and> userId \<in> set (attendees e) \<and> ev = e\<lparr>attendees := pull (attendees e) userId\<rparr>
           \<and> s = minusLength (capacity ev) (length (attendees ev)) \<and> db' = db(eventId \<mapsto> ev)"
proof -
  from assms obtain eventId where p: "param = ValidId eventId" and f: "fault = None"
    by (cases param; cases fault) (auto simp add: leaveEvent_def)
  show ?thesis
  proof (cases "\<exists>e. db eventId = Some e \<and> userId \<in> set (attendees e)")
    case True
    then obtain e where e: "db eventId = Some e" "userId \<in> set (attendees e)" by blast
    from leaveEvent_applied [of db eventId e userId] e assms p f
    show ?thesis by auto
  next
    case False
    from leaveEvent_refused [of db eventId userId] False assms p f
    show ?thesis by (simp add: leaveFailure_not_Left)
  qed
qed

text \<open>The status of a request that did not succeed.\<close>

lemma status_joinFailure: "status (joinFailure now x userId) = 400 \<or> status (joinFailure now x userId) = 404"
  by (simp add: joinFailure_def split: option.splits)

lemma status_leaveFailure: "status (leaveFailure x) = 400 \<or> status (leaveFailure x) = 404"
  by (simp add: leaveFailure_def split: option.splits)

lemma joinEvent_not_applied:
  assumes "joinEvent now fault db param userId = (r, db')" "\<nexists>ev s. r = Joined ev s"
  shows "db' = db \<and> (fault = None \<longrightarrow> status r = 400 \<or> status r = 404)"
proof (cases param)
  case InvalidId
  with assms(1) show ?thesis by (auto simp add: joinEvent_def)
next
  case (ValidId eventId)
  show ?thesis
  proof (cases fault)
    case (Some err)
    with assms(1) ValidId show ?thesis by (auto simp add: joinEvent_def)
  next
    case None
    show ?thesis
    proof (cases "\<exists>e. db eventId = Some e \<and> userId \<notin> set (attendees e)
                 \<and> lengthOf (attendees e) < capacity e")
      case True
      then obtain e where "db eventId = Some e" "userId \<notin> set (attendees e)"
        "lengthOf (attendees e) < capacity e" by blast
      with joinEvent_applied [of db eventId e userId now] assms ValidId None
      show ?thesis by auto
    next
      case False
      from joinEvent_refused [of db eventId userId now, OF False] assms(1) ValidId None
      have "r = joinFailure now (db eventId) userId" "db' = db" by auto
      with status_joinFailure [of now "db eventId" userId] show ?thesis by simp
    qed
  qed
qed

lemma leaveEvent_not_applied:
  assumes "leaveEvent fault db param userId = (r, db')" "\<nexists>ev s. r = Left ev s"
  shows "db' = db \<and> (fault = None \<longrightarrow> status r = 400 \<or> status r = 404)"
proof (cases param)
  case InvalidId
  with assms(1) show ?thesis by (auto simp add: leaveEvent_def)
next
  case (ValidId eventId)
  show ?thesis
  proof (cases fault)
    case (Some err)
    with assms(1) ValidId show ?thesis by (auto simp add: leaveEvent_def)
  next
    case None
    show ?thesis
    proof (cases "\<exists>e. db eventId = Some e \<and> userId \<in> set (attendees e)")
      case True
      then obtain e where "db eventId = Some e" "userId \<in> set (attendees e)" by blast
      with leaveEvent_applied [of db eventId e userId] assms ValidId None
      show ?thesis by auto
    next
      case False
      from leaveEvent_refused [of db eventId userId, OF False] assms(1) ValidId None
      have "r = leaveFailure (db eventId)" "db' = db" by auto
      with status_leaveFailure [of "db eventId"] show ?thesis by simp
    qed
  qed
qed

lemma joinEvent_error_fault:
  assumes "status (fst (joinEvent now fault db param userId)) = 500
         \<or> status (fst (joinEvent now fault db param userId)) = 409"
  shows "fault \<noteq> None"
proof
  assume none: "fault = None"
  obtain r db' where run: "joinEvent now fault db param userId = (r, db')"
    by (cases "joinEvent now fault db param userId")
  show False
  proof (cases "\<exists>ev s. r = Joined ev s")
    case True
    with assms run show False by auto
  next
    case False
    from joinEvent_not_applied [OF run False] none assms run show False by auto
  qed
qed

lemma leaveEvent_error_fault:
  assumes "status (fst (leaveEvent fault db param userId)) = 500
         \<or> status (fst (leaveEvent fault db param userId)) = 409"
  shows "fault \<noteq> None"
proof
  assume none: "fault = None"
  obtain r db' where run: "leaveEvent fault db param userId = (r, db')"
    by (cases "leaveEvent fault db param userId")
  show False
  proof (cases "\<exists>ev s. r = Left ev s")
    case True
    with assms run show False by auto
  next
    case False
    from leaveEvent_not_applied [OF run False] none assms run show False by auto
  qed
qed

section \<open>A request that does not apply\<close>

text \<open>
  Claim C5. When a join does not succeed, and when a leave does not succeed, the store
  after the request is the store before it: no field of any event has changed. Unless
  the driver threw an error, the response is an ordinary refusal with status 400 or
  404; a response with status 500 or 409 is given only when the driver threw. The
  atomic operations of the model return \<open>None\<close> for 'not applied', with the store
  unchanged.
\<close>

theorem not_applied_no_mutation:
  "(\<forall>r db'. joinEvent now fault db param userId = (r, db') \<and> (\<nexists>ev s. r = Joined ev s) \<longrightarrow>
       db' = db \<and> (fault = None \<longrightarrow> status r = 400 \<or> status r = 404))
   \<and> (\<forall>r db'. leaveEvent fault db param userId = (r, db') \<and> (\<nexists>ev s. r = Left ev s) \<longrightarrow>
       db' = db \<and> (fault = None \<longrightarrow> status r = 400 \<or> status r = 404))
   \<and> (status (fst (joinEvent now fault db param userId)) = 500
        \<or> status (fst (joinEvent now fault db param userId)) = 409 \<longrightarrow> fault \<noteq> None)
   \<and> (status (fst (leaveEvent fault db param userId)) = 500
        \<or> status (fst (leaveEvent fault db param userId)) = 409 \<longrightarrow> fault \<noteq> None)
   \<and> (fst (atomicRSVP db eventId userId) = None \<longrightarrow> snd (atomicRSVP db eventId userId) = db)
   \<and> (fst (atomicRemoveRSVP db eventId userId) = None \<longrightarrow>
        snd (atomicRemoveRSVP db eventId userId) = db)"
proof (intro conjI allI impI)
  fix r db'
  assume "joinEvent now fault db param userId = (r, db') \<and> (\<nexists>ev s. r = Joined ev s)"
  then have j: "db' = db \<and> (fault = None \<longrightarrow> status r = 400 \<or> status r = 404)"
    using joinEvent_not_applied [of now fault db param userId r db'] by blast
  from j show "db' = db" ..
  assume "fault = None"
  with j show "status r = 400 \<or> status r = 404" by blast
next
  fix r db'
  assume "leaveEvent fault db param userId = (r, db') \<and> (\<nexists>ev s. r = Left ev s)"
  then have l: "db' = db \<and> (fault = None \<longrightarrow> status r = 400 \<or> status r = 404)"
    using leaveEvent_not_applied [of fault db param userId r db'] by blast
  from l show "db' = db" ..
  assume "fault = None"
  with l show "status r = 400 \<or> status r = 404" by blast
next
  assume "status (fst (joinEvent now fault db param userId)) = 500
        \<or> status (fst (joinEvent now fault db param userId)) = 409"
  then show "fault \<noteq> None" by (rule joinEvent_error_fault)
next
  assume "status (fst (leaveEvent fault db param userId)) = 500
        \<or> status (fst (leaveEvent fault db param userId)) = 409"
  then show "fault \<noteq> None" by (rule leaveEvent_error_fault)
next
  assume "fst (atomicRSVP db eventId userId) = None"
  then show "snd (atomicRSVP db eventId userId) = db"
    by (auto simp add: atomicRSVP_def findOneAndUpdate_def Let_def split: option.splits if_splits)
next
  assume "fst (atomicRemoveRSVP db eventId userId) = None"
  then show "snd (atomicRemoveRSVP db eventId userId) = db"
    by (auto simp add: atomicRemoveRSVP_def findOneAndUpdate_def Let_def split: option.splits if_splits)
qed

theorem not_applied_no_mutation_witness:
  "joinEvent 1000 None [10 \<mapsto> meetup\<lparr>attendees := [2]\<rparr>] (ValidId 10) 3
     = (AtCapacity 0, [10 \<mapsto> meetup\<lparr>attendees := [2]\<rparr>])
   \<and> status (AtCapacity 0) = 400"
proof -
  have run: "joinEvent 1000 None [10 \<mapsto> meetup\<lparr>attendees := [2]\<rparr>] (ValidId 10) 3
     = (AtCapacity 0, [10 \<mapsto> meetup\<lparr>attendees := [2]\<rparr>])"
    by (simp add: joinEvent_def findOneAndUpdate_def findById_def joinFailure_def meetup_def)
  have no: "\<nexists>ev s. AtCapacity 0 = Joined ev s" by simp
  from not_applied_no_mutation [THEN conjunct1, rule_format, OF conjI, OF run no]
  have "None = (None :: db_error option) \<longrightarrow> status (AtCapacity 0) = 400 \<or> status (AtCapacity 0) = 404"
    by (rule conjunct2)
  then have "status (AtCapacity 0) = 400" by simp
  with run show ?thesis by (rule conjI)
qed

section \<open>Why a join did not apply\<close>

text \<open>
  Claim C6. When the atomic update of a join returned nothing, the response is decided
  by the document that a fresh \<open>findById\<close> reads, whatever it is, in this order: no
  document gives 'Event not found' (404); a date before the time of the request gives
  'Cannot RSVP to a past event'; otherwise a caller who is the creator gives 'Event
  creators are automatically attending'; otherwise a caller among the attendees gives
  'already RSVPed'; otherwise as many attendees as the capacity, or more, give 'full
  capacity' with \<open>spotsRemaining\<close> 0; otherwise 'Unable to RSVP. Please try again.'.
  A join request with a valid id and no driver error that does not succeed answers
  with this classification of the document in the store.
\<close>

theorem join_failure_classification:
  "(joinFailure now None userId = NotFound)
   \<and> (date e < now \<longrightarrow> joinFailure now (Some e) userId = EventEnded)
   \<and> (\<not> date e < now \<and> creator e = userId \<longrightarrow>
        joinFailure now (Some e) userId = CreatorImplicitlyAttending)
   \<and> (\<not> date e < now \<and> creator e \<noteq> userId \<and> userId \<in> set (attendees e) \<longrightarrow>
        joinFailure now (Some e) userId = AlreadyJoined)
   \<and> (\<not> date e < now \<and> creator e \<noteq> userId \<and> userId \<notin> set (attendees e)
        \<and> lengthOf (attendees e) \<ge> capacity e \<longrightarrow>
        joinFailure now (Some e) userId = AtCapacity 0)
   \<and> (\<not> date e < now \<and> creator e \<noteq> userId \<and> userId \<notin> set (attendees e)
        \<and> lengthOf (attendees e) < capacity e \<longrightarrow>
        joinFailure now (Some e) userId = TransientConflict)
   \<and> (\<forall>r db'. joinEvent now None db (ValidId eventId) userId = (r, db')
          \<and> (\<nexists>ev s. r = Joined ev s) \<longrightarrow> r = joinFailure now (findById db' eventId) userId)"
proof -
  have "r = joinFailure now (findById db' eventId) userId"
    if run: "joinEvent now None db (ValidId eventId) userId = (r, db')"
      and no: "\<nexists>ev s. r = Joined ev s" for r db'
  proof (cases "\<exists>e. db eventId = Some e \<and> userId \<notin> set (attendees e)
                 \<and> lengthOf (attendees e) < capacity e")
    case True
    then obtain e where "db eventId = Some e" "userId \<notin> set (attendees e)"
      "lengthOf (attendees e) < capacity e" by blast
    with joinEvent_applied [of db eventId e userId now] run no show ?thesis by auto
  next
    case False
    from joinEvent_refused [of db eventId userId now, OF False] run
    show ?thesis by (auto simp add: findById_def)
  qed
  then show ?thesis by (simp add: joinFailure_def less_eq_jsnum_def)
qed

theorem join_failure_classification_witness:
  "joinFailure 3000 (Some meetup) 2 = EventEnded
   \<and> joinFailure 1000 (Some meetup) 1 = CreatorImplicitlyAttending
   \<and> joinFailure 1000 (Some (meetup\<lparr>attendees := [2]\<rparr>)) 2 = AlreadyJoined
   \<and> joinFailure 1000 (Some (meetup\<lparr>attendees := [2]\<rparr>)) 3 = AtCapacity 0
   \<and> joinFailure 1000 (Some meetup) 3 = TransientConflict
   \<and> joinEvent 1000 None [10 \<mapsto> meetup\<lparr>attendees := [2]\<rparr>] (ValidId 10) 3
       = (joinFailure 1000 (findById [10 \<mapsto> meetup\<lparr>attendees := [2]\<rparr>] 10) 3,
          [10 \<mapsto> meetup\<lparr>attendees := [2]\<rparr>])"
proof -
  have "date meetup < 3000" by (simp add: meetup_def)
  with join_failure_classification [of 3000 2 meetup]
  have a: "joinFailure 3000 (Some meetup) 2 = EventEnded" by blast
  have "\<not> date meetup < 1000 \<and> creator meetup = 1" by (simp add: meetup_def)
  with join_failure_classification [of 1000 1 meetup]
  have b: "joinFailure 1000 (Some meetup) 1 = CreatorImplicitlyAttending" by blast
  let ?m = "meetup\<lparr>attendees := [2]\<rparr>"
  have "\<not> date ?m < 1000 \<and> creator ?m \<noteq> 2 \<and> 2 \<in> set (attendees ?m)"
    by (simp add: meetup_def)
  with join_failure_classification [of 1000 2 ?m]
  have c: "joinFailure 1000 (Some ?m) 2 = AlreadyJoined" by blast
  have "\<not> date ?m < 1000 \<and> creator ?m \<noteq> 3 \<and> 3 \<notin> set (attendees ?m)
        \<and> lengthOf (attendees ?m) \<ge> capacity ?m"
    by (simp add: meetup_def)
  with join_failure_classification [of 1000 3 ?m]
  have d: "joinFailure 1000 (Some ?m) 3 = AtCapacity 0" by blast
  have "\<not> date meetup < 1000 \<and> creator meetup \<noteq> 3 \<and> 3 \<notin> set (attendees meetup)
        \<and> lengthOf (attendees meetup) < capacity meetup"
    by (simp add: meetup_def)
  with join_failure_classification [of 1000 3 meetup]
  have e: "joinFailure 1000 (Some meetup) 3 = TransientConflict" by blast
  have run: "joinEvent 1000 None [10 \<mapsto> ?m] (ValidId 10) 3 = (AtCapacity 0, [10 \<mapsto> ?m])"
    by (simp add: joinEvent_def findOneAndUpdate_def findById_def joinFailure_def meetup_def)
  have no: "\<nexists>ev s. AtCapacity 0 = Joined ev s" by simp
  from join_failure_classification [THEN conjunct2, THEN conjunct2, THEN conjunct2,
      THEN conjunct2, THEN conjunct2, THEN conjunct2, rule_format, OF conjI, OF run no]
  have "AtCapacity 0 = joinFailure 1000 (findById [10 \<mapsto> ?m] 10) 3" .
  with run have f: "joinEvent 1000 None [10 \<mapsto> ?m] (ValidId 10) 3
       = (joinFailure 1000 (findById [10 \<mapsto> ?m] 10) 3, [10 \<mapsto> ?m])" by simp
  from a b c d e f show ?thesis by blast
qed

section \<open>Sample runs\<close>

text \<open>
  Rounding to a double: \<open>2^53 + 1\<close> is a tie and goes to the even \<open>2^53\<close>,
  \<open>2^53 + 3\<close> is a tie and goes to \<open>2^53 + 4\<close>, and the midpoint above the largest
  double and a numeral of 401 digits are infinite.
\<close>

lemma toDouble_examples:
  "toDouble 9007199254740993 = Num 9007199254740992"
  "toDouble (2 ^ 53 + 3) = Num (2 ^ 53 + 4)"
  "toDouble (- (2 ^ 53 + 3)) = Num (- (2 ^ 53 + 4))"
  "toDouble (2 ^ 1024 - 2 ^ 970) = PosInf"
  "toDouble (10 ^ 400) = PosInf"
  by (simp_all add: toDouble_def roundNat_def bitlen.simps Let_def)

text \<open>White space at both ends goes, U+00A0, U+202F and U+FEFF included; inside it stays.\<close>

lemma trim_example: "trim [160, 9, 72, 32, 105, 32, 8239, 65279] = [72, 32, 105]"
  by (simp add: trim_def isWhitespace_def)

lemma createEvent_meetup:
  "createEvent codeUnits Map.empty 10 1 meetupBody None = (Created meetup, [10 \<mapsto> meetup])"
  by (simp add: createEvent_def eventValidation_def eventData_def trim_def isWhitespace_def
      meetupBody_def meetup_def categories_def createValidators_def preSave_def codeUnits_def
      js_def lengthOf_def Let_def)

lemma running_meetup: "running [10 \<mapsto> meetup] []"
proof -
  have "running (snd (createEvent codeUnits Map.empty 10 1 meetupBody None)) []"
    by (rule r_create [OF r_start])
  then show ?thesis by (simp only: createEvent_meetup snd_conv)
qed

lemma reachable_meetup: "reachable [10 \<mapsto> meetup]"
  using running_meetup by (auto simp add: reachable_def)

lemma createEvent_workshop:
  "createEvent codeUnits Map.empty 20 1 workshopBody None
     = (Created workshop, [20 \<mapsto> workshop])"
  by (simp add: createEvent_def eventValidation_def eventData_def trim_def isWhitespace_def
      workshopBody_def workshop_def categories_def createValidators_def preSave_def
      codeUnits_def js_def lengthOf_def toDouble_def roundNat_def bitlen.simps Let_def)

text \<open>
  The owner of the workshop (capacity 3, one attendee) asks for a capacity of 1. The
  request reads the event, finds one attendee and goes on. Before it writes, two more
  callers join. Then it writes the capacity.
\<close>

lemma join_workshop:
  "snd (joinEvent now None [20 \<mapsto> workshop\<lparr>attendees := xs\<rparr>] (ValidId 20) u)
     = [20 \<mapsto> workshop\<lparr>attendees := xs @ [u]\<rparr>]"
  if "u \<notin> set xs" "length xs < 3"
  using that
  by (simp add: joinEvent_def findOneAndUpdate_def addToSet_def workshop_def Let_def)

lemma updateEventRead_shrink:
  "updateEventRead codeUnits [20 \<mapsto> workshop\<lparr>attendees := [2]\<rparr>] (ValidId 20) 1 shrink None
     = Inr (20, shrink, None)"
  by (simp add: updateEventRead_def eventUpdateValidation_def findById_def shrink_def
      noChange_def workshop_def)

lemma updateEventWrite_shrink:
  "updateEventWrite [20 \<mapsto> workshop\<lparr>attendees := [2, 3, 4]\<rparr>] (20, shrink, None)
     = (Updated (Some (workshop\<lparr>attendees := [2, 3, 4], capacity := Num 1\<rparr>)),
        [20 \<mapsto> workshop\<lparr>attendees := [2, 3, 4], capacity := Num 1\<rparr>])"
  by (simp add: updateEventWrite_def updateValidators_def applyUpdate_def setTitle_def
      setDescription_def setDate_def setTime_def setLocation_def setCategory_def
      setCapacity_def setImage_def shrink_def noChange_def workshop_def Let_def)

lemma running_race:
  "running [20 \<mapsto> workshop\<lparr>attendees := [2, 3, 4], capacity := Num 1\<rparr>] []"
proof -
  have "running (snd (createEvent codeUnits Map.empty 20 1 workshopBody None)) []"
    by (rule r_create [OF r_start])
  then have s0: "running [20 \<mapsto> workshop] []"
    by (simp only: createEvent_workshop snd_conv)
  have "workshop = workshop\<lparr>attendees := []\<rparr>" by (simp add: workshop_def)
  with s0 have "running [20 \<mapsto> workshop\<lparr>attendees := []\<rparr>] []" by simp
  then have "running (snd (joinEvent 1000 None [20 \<mapsto> workshop\<lparr>attendees := []\<rparr>]
      (ValidId 20) 2)) []"
    by (rule r_join)
  then have s1: "running [20 \<mapsto> workshop\<lparr>attendees := [2]\<rparr>] []"
    by (simp add: join_workshop)
  from s1 updateEventRead_shrink
  have s2: "running [20 \<mapsto> workshop\<lparr>attendees := [2]\<rparr>] [PendingUpdate (20, shrink, None)]"
    by (rule r_update_read)
  then have "running (snd (joinEvent 1001 None [20 \<mapsto> workshop\<lparr>attendees := [2]\<rparr>]
      (ValidId 20) 3)) [PendingUpdate (20, shrink, None)]"
    by (rule r_join)
  then have s3: "running [20 \<mapsto> workshop\<lparr>attendees := [2, 3]\<rparr>]
      [PendingUpdate (20, shrink, None)]"
    by (simp add: join_workshop)
  then have "running (snd (joinEvent 1002 None [20 \<mapsto> workshop\<lparr>attendees := [2, 3]\<rparr>]
      (ValidId 20) 4)) [PendingUpdate (20, shrink, None)]"
    by (rule r_join)
  then have s4: "running [20 \<mapsto> workshop\<lparr>attendees := [2, 3, 4]\<rparr>]
      [PendingUpdate (20, shrink, None)]"
    by (simp add: join_workshop)
  have "PendingUpdate (20, shrink, None) \<in> set [PendingUpdate (20, shrink, None)]" by simp
  with s4 have "running
      (snd (updateEventWrite [20 \<mapsto> workshop\<lparr>attendees := [2, 3, 4]\<rparr>] (20, shrink, None)))
      (remove1 (PendingUpdate (20, shrink, None)) [PendingUpdate (20, shrink, None)])"
    by (rule r_update_write)
  then show ?thesis by (simp add: updateEventWrite_shrink)
qed

section \<open>Leave\<close>

text \<open>
  Claim C7. A leave request (valid id, no driver error) removes the caller from the
  attendees if and only if the event exists and the caller is among its attendees. The
  response then carries the updated document, which is the document found with its
  attendees reduced to those that are not the caller, in their order, and every other
  field as it was; this is what the store holds afterwards and what \<open>atomicRemoveRSVP\<close>
  returns. Otherwise the store is unchanged, and the response is 'Event not found' when
  the event does not exist and 'You are not RSVPed to this event' when the caller is
  not an attendee. So a second leave right after a successful one answers 'not RSVPed'
  and leaves the store, and with it the number of attendees, as the first leave left it.
\<close>

theorem leave_iff_member:
  assumes "leaveEvent None db (ValidId eventId) userId = (r, db')"
  shows "((\<exists>ev s. r = Left ev s) \<longleftrightarrow> (\<exists>e. db eventId = Some e \<and> userId \<in> set (attendees e)))
       \<and> (\<forall>ev s. r = Left ev s \<longrightarrow>
            (\<exists>e. db eventId = Some e
                 \<and> ev = e\<lparr>attendees := filter (\<lambda>a. a \<noteq> userId) (attendees e)\<rparr>)
            \<and> userId \<notin> set (attendees ev)
            \<and> db' = db(eventId \<mapsto> ev)
            \<and> atomicRemoveRSVP db eventId userId = (Some ev, db')
            \<and> leaveEvent None db' (ValidId eventId) userId = (NotJoined, db'))
       \<and> (db eventId = None \<longrightarrow> r = NotFound \<and> db' = db)
       \<and> (\<forall>e. db eventId = Some e \<and> userId \<notin> set (attendees e) \<longrightarrow> r = NotJoined \<and> db' = db)"
proof (cases "\<exists>e. db eventId = Some e \<and> userId \<in> set (attendees e)")
  case True
  then obtain e where e: "db eventId = Some e" "userId \<in> set (attendees e)" by blast
  let ?ev = "e\<lparr>attendees := filter (\<lambda>a. a \<noteq> userId) (attendees e)\<rparr>"
  from leaveEvent_applied [of db eventId e userId] e assms
  have r: "r = Left ?ev (minusLength (capacity e) (length (filter (\<lambda>a. a \<noteq> userId) (attendees e))))"
    and db': "db' = db(eventId \<mapsto> ?ev)" by (simp_all add: pull_def)
  have gone: "userId \<notin> set (attendees ?ev)" by simp
  from e have atomic: "atomicRemoveRSVP db eventId userId = (Some ?ev, db(eventId \<mapsto> ?ev))"
    by (simp add: atomicRemoveRSVP_def findOneAndUpdate_def Let_def pull_def)
  from gone db' have "\<not> (\<exists>d. db' eventId = Some d \<and> userId \<in> set (attendees d))" by simp
  from leaveEvent_refused [of db' eventId userId, OF this] db'
  have again: "leaveEvent None db' (ValidId eventId) userId = (NotJoined, db')"
    by (simp add: leaveFailure_def)
  from r db' gone atomic again e show ?thesis by auto
next
  case False
  from leaveEvent_refused [of db eventId userId, OF False] assms
  have "r = leaveFailure (db eventId)" "db' = db" by auto
  with False show ?thesis by (auto simp add: leaveFailure_def split: option.splits)
qed

theorem leave_iff_member_witness:
  "leaveEvent None [20 \<mapsto> workshop\<lparr>attendees := [2, 3, 4]\<rparr>] (ValidId 20) 3
     = (Left (workshop\<lparr>attendees := [2, 4]\<rparr>) (Num 1),
        [20 \<mapsto> workshop\<lparr>attendees := [2, 4]\<rparr>])
   \<and> leaveEvent None [20 \<mapsto> workshop\<lparr>attendees := [2, 4]\<rparr>] (ValidId 20) 3
     = (NotJoined, [20 \<mapsto> workshop\<lparr>attendees := [2, 4]\<rparr>])"
proof -
  have run: "leaveEvent None [20 \<mapsto> workshop\<lparr>attendees := [2, 3, 4]\<rparr>] (ValidId 20) 3
     = (Left (workshop\<lparr>attendees := [2, 4]\<rparr>) (Num 1),
        [20 \<mapsto> workshop\<lparr>attendees := [2, 4]\<rparr>])"
    by (simp add: leaveEvent_def findOneAndUpdate_def pull_def workshop_def Let_def
        minusLength_def)
  have "leaveEvent None [20 \<mapsto> workshop\<lparr>attendees := [2, 4]\<rparr>] (ValidId 20) 3
     = (NotJoined, [20 \<mapsto> workshop\<lparr>attendees := [2, 4]\<rparr>])"
    by (rule leave_iff_member [OF run, THEN conjunct2, THEN conjunct1, rule_format, OF refl,
          THEN conjunct2, THEN conjunct2, THEN conjunct2, THEN conjunct2])
  with run show ?thesis by (rule conjI)
qed

section \<open>Two requests for the last spot\<close>

text \<open>
  Claim C2 says that of two callers who join an event with capacity 1 and no attendee
  at the same time, one is answered with the success and the other with 'full
  capacity'. The block that explains a refusal tests the creator before it tests the
  capacity: here the creator of the meetup, as createEvent stored it, and another
  caller ask for its one spot before its date, the update of the other caller is applied
  first, and the creator is answered 'Event creators are automatically attending their
  events'.
\<close>

theorem last_spot_creator_counterexample:
  "running [10 \<mapsto> meetup] []
   \<and> capacity meetup = Num 1 \<and> attendees meetup = [] \<and> creator meetup = 1
   \<and> \<not> date meetup < 1000
   \<and> concurrentJoins False 1000 1000 [10 \<mapsto> meetup] 10 1 2
     = (CreatorImplicitlyAttending,
        Joined (meetup\<lparr>attendees := [2]\<rparr>) (Num 0),
        [10 \<mapsto> meetup\<lparr>attendees := [2]\<rparr>])"
proof -
  have "capacity meetup = Num 1 \<and> attendees meetup = [] \<and> creator meetup = 1
   \<and> \<not> date meetup < 1000
   \<and> concurrentJoins False 1000 1000 [10 \<mapsto> meetup] 10 1 2
     = (CreatorImplicitlyAttending,
        Joined (meetup\<lparr>attendees := [2]\<rparr>) (Num 0),
        [10 \<mapsto> meetup\<lparr>attendees := [2]\<rparr>])"
    by (simp add: concurrentJoins_def joinEvent_def findOneAndUpdate_def findById_def
        addToSet_def joinFailure_def meetup_def Let_def minusLength_def)
  with running_meetup show ?thesis by simp
qed

text \<open>
  Claim C2, as amended. Two distinct callers join, at the same time and without a
  driver error, an event with capacity 1 and no attendee that is not past. Whichever
  of the two updates the store applies first, that caller is answered with the success,
  with the updated document and 0 spots remaining, and is the one attendee of the event
  afterwards. The other caller is refused: with 'full capacity' and 0 spots remaining,
  or, when that caller is the creator of the event, with 'Event creators are
  automatically attending their events'. The two are never both answered with the
  success.
\<close>

theorem last_spot_two_joins:
  assumes "db eventId = Some e" "attendees e = []" "capacity e = Num 1" "a \<noteq> b"
    "\<not> date e < nowA" "\<not> date e < nowB"
  shows "concurrentJoins True nowA nowB db eventId a b
           = (Joined (e\<lparr>attendees := [a]\<rparr>) (Num 0),
              (if creator e = b then CreatorImplicitlyAttending else AtCapacity 0),
              db(eventId \<mapsto> e\<lparr>attendees := [a]\<rparr>))
       \<and> concurrentJoins False nowA nowB db eventId a b
           = ((if creator e = a then CreatorImplicitlyAttending else AtCapacity 0),
              Joined (e\<lparr>attendees := [b]\<rparr>) (Num 0),
              db(eventId \<mapsto> e\<lparr>attendees := [b]\<rparr>))"
proof -
  have one: "joinEvent now None db (ValidId eventId) u
      = (Joined (e\<lparr>attendees := [u]\<rparr>) (Num 0), db(eventId \<mapsto> e\<lparr>attendees := [u]\<rparr>))"
    for now u
    using joinEvent_applied [of db eventId e u now] assms(1,2,3)
    by (simp add: minusLength_def)
  have two: "joinEvent now None (db(eventId \<mapsto> e\<lparr>attendees := [u]\<rparr>)) (ValidId eventId) v
      = ((if creator e = v then CreatorImplicitlyAttending else AtCapacity 0),
         db(eventId \<mapsto> e\<lparr>attendees := [u]\<rparr>))"
    if "u \<noteq> v" "\<not> date e < now" for now u v
  proof -
    let ?db1 = "db(eventId \<mapsto> e\<lparr>attendees := [u]\<rparr>)"
    from assms(3)
    have "\<not> (\<exists>d. ?db1 eventId = Some d \<and> v \<notin> set (attendees d)
                 \<and> lengthOf (attendees d) < capacity d)" by simp
    from joinEvent_refused [of ?db1 eventId v now, OF this] that assms(3)
    show ?thesis by (simp add: joinFailure_def less_eq_jsnum_def lengthOf_def)
  qed
  from assms(4) have ba: "b \<noteq> a" by simp
  show ?thesis
    by (simp add: concurrentJoins_def one two [OF assms(4) assms(6)] two [OF ba assms(5)])
qed

theorem last_spot_two_joins_witness:
  "concurrentJoins True 1000 1001 [10 \<mapsto> meetup] 10 2 3
     = (Joined (meetup\<lparr>attendees := [2]\<rparr>) (Num 0), AtCapacity 0,
        [10 \<mapsto> meetup\<lparr>attendees := [2]\<rparr>])
   \<and> concurrentJoins False 1000 1001 [10 \<mapsto> meetup] 10 2 3
     = (AtCapacity 0, Joined (meetup\<lparr>attendees := [3]\<rparr>) (Num 0),
        [10 \<mapsto> meetup\<lparr>attendees := [3]\<rparr>])"
proof -
  have pre: "[10 \<mapsto> meetup] (10::nat) = Some meetup" "attendees meetup = []"
    "capacity meetup = Num 1" "(2::nat) \<noteq> 3" "\<not> date meetup < 1000" "\<not> date meetup < 1001"
    by (simp_all add: meetup_def)
  have c: "creator meetup \<noteq> 2" "creator meetup \<noteq> 3" by (simp_all add: meetup_def)
  from last_spot_two_joins [where db = "[10 \<mapsto> meetup]" and eventId = 10 and e = meetup
      and a = 2 and b = 3 and nowA = 1000 and nowB = 1001, OF pre] c
  show ?thesis by simp
qed

section \<open>No overbooking\<close>

text \<open>What holds: joins, leaves and updates that nothing interleaves with.\<close>

lemma lengthOf_snoc_le: "lengthOf xs < c \<Longrightarrow> lengthOf (xs @ [u]) \<le> c"
  by (cases c) (simp_all add: lengthOf_def less_eq_jsnum_def)

lemma lengthOf_shorter_le: "lengthOf xs \<le> c \<Longrightarrow> length ys \<le> length xs \<Longrightarrow> lengthOf ys \<le> c"
  by (cases c) (simp_all add: lengthOf_def less_eq_jsnum_def)

lemma withinCapacity_upd:
  "withinCapacity db \<Longrightarrow> lengthOf (attendees e) \<le> capacity e
   \<Longrightarrow> withinCapacity (db(eventId \<mapsto> e))"
  by (simp add: withinCapacity_def)

lemma withinCapacity_lookup:
  "withinCapacity db \<Longrightarrow> db eventId = Some e \<Longrightarrow> lengthOf (attendees e) \<le> capacity e"
  by (auto simp add: withinCapacity_def)

lemma withinCapacity_joinEvent:
  "withinCapacity db \<Longrightarrow> withinCapacity (snd (joinEvent now fault db param userId))"
  using joinEvent_store [of now fault db param userId]
  by (auto intro!: withinCapacity_upd lengthOf_snoc_le simp add: joinable_def)

lemma withinCapacity_leaveEvent:
  assumes "withinCapacity db"
  shows "withinCapacity (snd (leaveEvent fault db param userId))"
proof -
  from leaveEvent_store [of fault db param userId]
  consider "snd (leaveEvent fault db param userId) = db"
    | eventId e where "db eventId = Some e"
      "snd (leaveEvent fault db param userId)
        = db(eventId \<mapsto> e\<lparr>attendees := pull (attendees e) userId\<rparr>)"
    by blast
  then show ?thesis
  proof cases
    case 1
    with assms show ?thesis by simp
  next
    case 2
    from assms 2(1) have "lengthOf (attendees e) \<le> capacity e"
      by (rule withinCapacity_lookup)
    then have "lengthOf (pull (attendees e) userId) \<le> capacity e"
      using length_pull_le by (rule lengthOf_shorter_le)
    with assms 2(2) show ?thesis by (simp add: withinCapacity_upd)
  qed
qed

lemma withinCapacity_updateEvent:
  assumes "withinCapacity db"
  shows "withinCapacity (snd (updateEvent isLength db param userId b reqFile))"
proof (cases "updateEventRead isLength db param userId b reqFile")
  case (Inl r)
  with assms show ?thesis by (simp add: updateEvent_def)
next
  case (Inr w)
  then obtain eventId e where w: "w = (eventId, b, reqFile)" and e: "db eventId = Some e"
    and chk: "\<forall>n. b_capacity b = Some (IntText n) \<longrightarrow> lengthOf (attendees e) \<le> toDouble n"
    by (auto simp add: updateEventRead_def findById_def less_eq_jsnum_def
        split: if_splits id_param.splits option.splits int_param.splits)
  from assms e have "lengthOf (attendees e) \<le> capacity e" by (rule withinCapacity_lookup)
  with chk have "lengthOf (attendees (applyUpdate b reqFile e)) \<le> capacity (applyUpdate b reqFile e)"
    by (simp add: attendees_applyUpdate capacity_applyUpdate
        split: option.splits int_param.splits)
  with assms have "withinCapacity (db(eventId \<mapsto> applyUpdate b reqFile e))"
    by (simp add: withinCapacity_upd)
  with assms Inr w e show ?thesis
    by (simp add: updateEvent_def updateEventWrite_def Let_def)
qed

lemma withinCapacity_joinAll:
  "withinCapacity db \<Longrightarrow> withinCapacity (joinAll db eventId reqs)"
  by (induction db eventId reqs rule: joinAll.induct) (simp_all add: withinCapacity_joinEvent)

text \<open>The attendees of the event after a list of fault-free joins by distinct users.\<close>

lemma joinAll_attendees:
  assumes "db eventId = Some e" "capacity e = Num c" "\<forall>r\<in>set reqs. fst (snd r) = None"
    "distinct (map (\<lambda>r. snd (snd r)) reqs)"
    "\<forall>r\<in>set reqs. snd (snd r) \<notin> set (attendees e)"
    "int (length (attendees e)) \<le> c"
  shows "\<exists>e'. joinAll db eventId reqs eventId = Some e' \<and>
           attendees e' = attendees e
             @ take (nat c - length (attendees e)) (map (\<lambda>r. snd (snd r)) reqs) \<and>
           capacity e' = Num c"
  using assms
proof (induction db eventId reqs arbitrary: e rule: joinAll.induct)
  case (1 db eventId)
  then show ?case by simp
next
  case (2 db eventId now fault userId rest)
  from "2.prems" have fault: "fault = None" and fresh: "userId \<notin> set (attendees e)" by auto
  show ?case
  proof (cases "int (length (attendees e)) < c")
    case True
    let ?e1 = "e\<lparr>attendees := attendees e @ [userId]\<rparr>"
    let ?db1 = "db(eventId \<mapsto> ?e1)"
    from joinEvent_applied [of db eventId e userId now] "2.prems"(1,2) fresh True fault
    have step: "snd (joinEvent now fault db (ValidId eventId) userId) = ?db1" by simp
    have "\<exists>e'. joinAll ?db1 eventId rest eventId = Some e' \<and>
           attendees e' = attendees ?e1
             @ take (nat c - length (attendees ?e1)) (map (\<lambda>r. snd (snd r)) rest) \<and>
           capacity e' = Num c"
      using "2.prems" True by (intro "2.IH" [unfolded step]) auto
    then obtain e' where e': "joinAll ?db1 eventId rest eventId = Some e'"
      "attendees e' = attendees ?e1
             @ take (nat c - length (attendees ?e1)) (map (\<lambda>r. snd (snd r)) rest)"
      "capacity e' = Num c" by blast
    from True have "nat c - length (attendees e)
        = Suc (nat c - Suc (length (attendees e)))" by linarith
    with e' step show ?thesis by simp
  next
    case False
    from joinEvent_refused [of db eventId userId now] "2.prems"(1,2) False fault
    have step: "snd (joinEvent now fault db (ValidId eventId) userId) = db" by simp
    have "\<exists>e'. joinAll db eventId rest eventId = Some e' \<and>
           attendees e' = attendees e
             @ take (nat c - length (attendees e)) (map (\<lambda>r. snd (snd r)) rest) \<and>
           capacity e' = Num c"
      using "2.prems" by (intro "2.IH" [unfolded step]) auto
    moreover from False "2.prems"(6) have "nat c - length (attendees e) = 0"
      by linarith
    ultimately show ?thesis using step by simp
  qed
qed

text \<open>
  In a store where no event has more attendees than its capacity, this is still so
  after a join, after a leave, after an update that nothing interleaves with, and after
  any list of joins; and joins by distinct callers, without a driver error, to an event
  with a finite capacity and no attendee leave the first \<open>capacity\<close> callers as
  attendees.
\<close>

lemma no_overbooking_without_interleaving:
  assumes "withinCapacity db"
  shows "withinCapacity (snd (joinEvent now fault db param userId))
       \<and> withinCapacity (snd (leaveEvent fault db param userId))
       \<and> withinCapacity (snd (updateEvent isLength db param userId b reqFile))
       \<and> withinCapacity (joinAll db eventId reqs)
       \<and> (\<forall>e c. db eventId = Some e \<and> capacity e = Num c \<and> attendees e = []
                \<and> (\<forall>r\<in>set reqs. fst (snd r) = None)
                \<and> distinct (map (\<lambda>r. snd (snd r)) reqs) \<longrightarrow>
              (\<exists>e'. joinAll db eventId reqs eventId = Some e'
                  \<and> capacity e' = Num c
                  \<and> attendees e' = take (nat c) (map (\<lambda>r. snd (snd r)) reqs)
                  \<and> distinct (attendees e')
                  \<and> int (length (attendees e')) = min (int (length reqs)) c))"
proof -
  have "\<exists>e'. joinAll db eventId reqs eventId = Some e'
                  \<and> capacity e' = Num c
                  \<and> attendees e' = take (nat c) (map (\<lambda>r. snd (snd r)) reqs)
                  \<and> distinct (attendees e')
                  \<and> int (length (attendees e')) = min (int (length reqs)) c"
    if e: "db eventId = Some e" "capacity e = Num c" "attendees e = []"
      and nofault: "\<forall>r\<in>set reqs. fst (snd r) = None"
      and dist: "distinct (map (\<lambda>r. snd (snd r)) reqs)" for e c
  proof -
    from assms e(1) have "lengthOf (attendees e) \<le> capacity e"
      by (rule withinCapacity_lookup)
    with e(2,3) have nonneg: "0 \<le> c" by simp
    from joinAll_attendees [of db eventId e c reqs] e nofault dist nonneg
    obtain e' where e': "joinAll db eventId reqs eventId = Some e'"
      "attendees e' = take (nat c) (map (\<lambda>r. snd (snd r)) reqs)"
      "capacity e' = Num c" by auto
    from dist e'(2) have "distinct (attendees e')" by (simp add: distinct_take)
    moreover from e'(2) nonneg
    have "int (length (attendees e')) = min (int (length reqs)) c" by auto
    ultimately show ?thesis using e' by blast
  qed
  with assms show ?thesis
    by (simp add: withinCapacity_joinEvent withinCapacity_leaveEvent
        withinCapacity_updateEvent withinCapacity_joinAll)
qed

text \<open>
  Claim C3 says that no event has more attendees than its capacity after any join,
  leave or event update. The update breaks it: it checks the new capacity against the
  attendees it read, and writes later by id alone. In the sample run the owner asks for
  a capacity of 1 while the workshop has one attendee, two callers join before the
  write, and the program is left with three attendees for a capacity of 1.
\<close>

theorem update_race_overbooks:
  "running [20 \<mapsto> workshop\<lparr>attendees := [2, 3, 4], capacity := Num 1\<rparr>] []
   \<and> capacity (workshop\<lparr>attendees := [2, 3, 4], capacity := Num 1\<rparr>)
       < lengthOf (attendees (workshop\<lparr>attendees := [2, 3, 4], capacity := Num 1\<rparr>))"
  using running_race by simp

section \<open>Spots remaining\<close>

text \<open>
  What holds: a successful join and a successful leave answer with the document the
  store holds afterwards and with the value of the schema's virtual on it,
  \<^verbatim>\<open>capacity - attendees.length\<close>. After a join it is never negative. After a leave
  it is not negative when the event had no more attendees than its capacity.
\<close>

lemma minusLength_nonneg: "lengthOf xs \<le> c \<Longrightarrow> Num 0 \<le> minusLength c (length xs)"
  by (cases c) (simp_all add: minusLength_def lengthOf_def less_eq_jsnum_def toDouble_def)

lemma spots_after_join:
  assumes "joinEvent now fault db param userId = (Joined ev s, db')"
  shows "s = spotsRemaining ev \<and> Num 0 \<le> s
       \<and> (\<exists>eventId. param = ValidId eventId \<and> db' eventId = Some ev)"
proof -
  from joinEvent_Joined [OF assms]
  obtain eventId e where e: "param = ValidId eventId" "db eventId = Some e" "joinable e userId"
    "ev = e\<lparr>attendees := attendees e @ [userId]\<rparr>"
    "s = minusLength (capacity ev) (length (attendees ev))" "db' = db(eventId \<mapsto> ev)" by blast
  from e(3) have "lengthOf (attendees e @ [userId]) \<le> capacity e"
    by (simp add: joinable_def lengthOf_snoc_le)
  with e(4) have "lengthOf (attendees ev) \<le> capacity ev" by simp
  then have "Num 0 \<le> minusLength (capacity ev) (length (attendees ev))"
    by (rule minusLength_nonneg)
  with e show ?thesis by (simp add: spotsRemaining_def)
qed

lemma spots_after_leave:
  assumes "leaveEvent fault db param userId = (Left ev s, db')"
  shows "s = spotsRemaining ev
       \<and> (\<exists>eventId. param = ValidId eventId \<and> db' eventId = Some ev)
       \<and> (withinCapacity db \<longrightarrow> Num 0 \<le> s)"
proof -
  from leaveEvent_Left [OF assms]
  obtain eventId e where e: "param = ValidId eventId" "db eventId = Some e"
    "ev = e\<lparr>attendees := pull (attendees e) userId\<rparr>"
    "s = minusLength (capacity ev) (length (attendees ev))" "db' = db(eventId \<mapsto> ev)" by blast
  have "Num 0 \<le> s" if "withinCapacity db"
  proof -
    from that e(2) have "lengthOf (attendees e) \<le> capacity e" by (rule withinCapacity_lookup)
    then have "lengthOf (pull (attendees e) userId) \<le> capacity e"
      using length_pull_le by (rule lengthOf_shorter_le)
    with e(3) have "lengthOf (attendees ev) \<le> capacity ev" by simp
    then have "Num 0 \<le> minusLength (capacity ev) (length (attendees ev))"
      by (rule minusLength_nonneg)
    with e(4) show ?thesis by simp
  qed
  with e show ?thesis by (simp add: spotsRemaining_def)
qed

text \<open>
  Claim C8 says that the spots remaining in the response to a successful join or leave
  are the capacity minus the attendees of the document returned, and are not negative.
  The response is not clamped, and the update can leave an event with more attendees
  than its capacity. After the sample run one attendee of the workshop leaves, and the
  response carries two attendees, a capacity of 1 and -1 spots remaining.
\<close>

theorem leave_after_race_negative_spots:
  "running [20 \<mapsto> workshop\<lparr>attendees := [2, 3, 4], capacity := Num 1\<rparr>] []
   \<and> leaveEvent None [20 \<mapsto> workshop\<lparr>attendees := [2, 3, 4], capacity := Num 1\<rparr>]
        (ValidId 20) 2
     = (Left (workshop\<lparr>attendees := [3, 4], capacity := Num 1\<rparr>) (Num (- 1)),
        [20 \<mapsto> workshop\<lparr>attendees := [3, 4], capacity := Num 1\<rparr>])
   \<and> Num (- 1) < Num 0"
proof -
  have "leaveEvent None [20 \<mapsto> workshop\<lparr>attendees := [2, 3, 4], capacity := Num 1\<rparr>]
        (ValidId 20) 2
     = (Left (workshop\<lparr>attendees := [3, 4], capacity := Num 1\<rparr>) (Num (- 1)),
        [20 \<mapsto> workshop\<lparr>attendees := [3, 4], capacity := Num 1\<rparr>])"
    by (simp add: leaveEvent_def findOneAndUpdate_def pull_def workshop_def Let_def
        minusLength_def)
  with running_race show ?thesis by simp
qed

section \<open>Past events\<close>

text \<open>
  Claim C9 says that a join never adds an attendee to an event that is past or not
  active. No document the program produces is inactive (\<open>reachable_isActive\<close>). The
  date, though, is read only by the block that explains a refusal, after the atomic
  update did not apply: the controller has the message 'Cannot RSVP to a past event',
  and still a caller joins a past event that has a free spot. Here the meetup of date
  2000 is joined at time 3000.
\<close>

theorem join_past_event_applies:
  "running [10 \<mapsto> meetup] []
   \<and> date meetup < 3000
   \<and> joinEvent 3000 None [10 \<mapsto> meetup] (ValidId 10) 2
     = (Joined (meetup\<lparr>attendees := [2]\<rparr>) (Num 0), [10 \<mapsto> meetup\<lparr>attendees := [2]\<rparr>])"
proof -
  have "date meetup < 3000
   \<and> joinEvent 3000 None [10 \<mapsto> meetup] (ValidId 10) 2
     = (Joined (meetup\<lparr>attendees := [2]\<rparr>) (Num 0), [10 \<mapsto> meetup\<lparr>attendees := [2]\<rparr>])"
    by (simp add: joinEvent_def findOneAndUpdate_def addToSet_def meetup_def Let_def
        minusLength_def)
  with running_meetup show ?thesis by simp
qed

section \<open>Capacity\<close>

text \<open>
  What holds: the capacity of every document the program produces is a number that is
  at least 1. An update of the owner that nothing interleaves with, whose capacity
  passed the request validation, is refused with the store unchanged when
  \<^verbatim>\<open>parseInt(capacity)\<close> is below the number of attendees; otherwise, when the other
  fields pass the schema validators, it is accepted and stores
  \<^verbatim>\<open>parseInt(capacity)\<close> with the same attendees.
\<close>

lemma capacity_at_least_1: "reachable db \<Longrightarrow> db eventId = Some e \<Longrightarrow> Num 1 \<le> capacity e"
  by (auto dest!: reachable_storeOk storeOk_lookup simp add: wellFormed_def)

lemma updateEvent_guard:
  assumes "db eventId = Some e" "creator e = userId" "eventUpdateValidation isLength b"
    "b_capacity b = Some (IntText n)"
  shows "(toDouble n < lengthOf (attendees e) \<longrightarrow>
            updateEvent isLength db (ValidId eventId) userId b reqFile
              = (CapacityBelowAttendees (length (attendees e)), db))
       \<and> (\<not> toDouble n < lengthOf (attendees e) \<and> updateValidators b \<longrightarrow>
            updateEvent isLength db (ValidId eventId) userId b reqFile
              = (Updated (Some (applyUpdate b reqFile e)),
                 db(eventId \<mapsto> applyUpdate b reqFile e))
            \<and> capacity (applyUpdate b reqFile e) = toDouble n
            \<and> attendees (applyUpdate b reqFile e) = attendees e)"
  using assms
  by (simp add: updateEvent_def updateEventRead_def updateEventWrite_def findById_def Let_def
      capacity_applyUpdate attendees_applyUpdate)

text \<open>
  Claim C10 says that the capacity is always a positive integer and that an update of
  the owner never brings it below the number of attendees. Two requests show
  otherwise. In the sample run the update with capacity 1 passes the check against the
  one attendee it read, and writes the capacity when the workshop has three. And a
  capacity written with 401 digits passes the request validation, \<^verbatim>\<open>parseInt\<close> makes
  it infinite, and the update stores that: the capacity of the meetup is then no
  integer.
\<close>

theorem update_capacity_escapes_guard:
  "updateEventRead codeUnits [20 \<mapsto> workshop\<lparr>attendees := [2]\<rparr>] (ValidId 20) 1 shrink None
     = Inr (20, shrink, None)
   \<and> updateEventWrite [20 \<mapsto> workshop\<lparr>attendees := [2, 3, 4]\<rparr>] (20, shrink, None)
     = (Updated (Some (workshop\<lparr>attendees := [2, 3, 4], capacity := Num 1\<rparr>)),
        [20 \<mapsto> workshop\<lparr>attendees := [2, 3, 4], capacity := Num 1\<rparr>])
   \<and> running [20 \<mapsto> workshop\<lparr>attendees := [2, 3, 4], capacity := Num 1\<rparr>] []
   \<and> running [10 \<mapsto> meetup] []
   \<and> updateEvent codeUnits [10 \<mapsto> meetup] (ValidId 10) 1 huge None
     = (Updated (Some (meetup\<lparr>capacity := PosInf\<rparr>)), [10 \<mapsto> meetup\<lparr>capacity := PosInf\<rparr>])"
proof -
  have "updateEvent codeUnits [10 \<mapsto> meetup] (ValidId 10) 1 huge None
     = (Updated (Some (meetup\<lparr>capacity := PosInf\<rparr>)), [10 \<mapsto> meetup\<lparr>capacity := PosInf\<rparr>])"
    by (simp add: updateEvent_def updateEventRead_def updateEventWrite_def
        eventUpdateValidation_def updateValidators_def findById_def applyUpdate_def
        setTitle_def setDescription_def setDate_def setTime_def setLocation_def
        setCategory_def setCapacity_def setImage_def huge_def noChange_def meetup_def
        toDouble_def Let_def)
  with updateEventRead_shrink updateEventWrite_shrink running_race running_meetup
  show ?thesis by simp
qed

end
